theory Spec2Isabelle
  imports Main
begin

section \<open>Python strings\<close>

text \<open>
  A Python \<open>str\<close> is a HOL \<open>string\<close>; one \<open>char\<close> stands for one code point below 256
  (the only character outside ASCII that \<open>base.py\<close> names is the middle dot U+00B7).
  The functions below are the \<open>str\<close> methods that \<open>base.py\<close> calls.
\<close>

fun startswith :: "'a list \<Rightarrow> 'a list \<Rightarrow> bool" where
  "startswith s [] = True"
| "startswith [] (p # ps) = False"
| "startswith (c # cs) (p # ps) = (c = p \<and> startswith cs ps)"

text \<open>\<open>s.partition(sep)\<close> for a non-empty \<open>sep\<close>: the text before and after the first
  occurrence of \<open>sep\<close>, or \<open>None\<close> when \<open>sep\<close> does not occur.\<close>

fun str_partition :: "'a list \<Rightarrow> 'a list \<Rightarrow> ('a list \<times> 'a list) option" where
  "str_partition sep [] = None"
| "str_partition sep (c # cs) =
     (if startswith (c # cs) sep then Some ([], drop (length sep) (c # cs))
      else (case str_partition sep cs of
              None \<Rightarrow> None
            | Some (before, after) \<Rightarrow> Some (c # before, after)))"

text \<open>\<open>sub in s\<close>, for a non-empty \<open>sub\<close>.\<close>

definition str_contains :: "'a list \<Rightarrow> 'a list \<Rightarrow> bool" where
  "str_contains sub s = (str_partition sub s \<noteq> None)"

text \<open>\<open>s.split(sep)[0]\<close>.\<close>

definition split_first :: "'a list \<Rightarrow> 'a list \<Rightarrow> 'a list" where
  "split_first sep s = (case str_partition sep s of None \<Rightarrow> s | Some (before, after) \<Rightarrow> before)"

text \<open>\<open>s.split(sep, 1)[-1]\<close>.\<close>

definition split_once_last :: "'a list \<Rightarrow> 'a list \<Rightarrow> 'a list" where
  "split_once_last sep s = (case str_partition sep s of None \<Rightarrow> s | Some (before, after) \<Rightarrow> after)"

text \<open>\<open>s.split(c)[-1]\<close> for a separator of one character: the text after its last occurrence.\<close>

definition split_last :: "'a \<Rightarrow> 'a list \<Rightarrow> 'a list" where
  "split_last c s = rev (takeWhile (\<lambda>x. x \<noteq> c) (rev s))"

text \<open>\<open>s.rsplit(c, 1)[0]\<close> for a separator of one character: the text before its last
  occurrence, the whole of \<open>s\<close> when there is none.\<close>

definition rsplit_once_first :: "'a \<Rightarrow> 'a list \<Rightarrow> 'a list" where
  "rsplit_once_first c s = (if c \<in> set s then rev (tl (dropWhile (\<lambda>x. x \<noteq> c) (rev s))) else s)"

text \<open>\<open>s.replace(old, new)\<close>: the occurrences of \<open>old\<close> are found from the left, without
  overlap, and what has been replaced is not scanned again. (With an empty \<open>old\<close> Python
  inserts \<open>new\<close> around every character; \<open>base.py\<close> only passes literals that are not empty,
  and here an empty \<open>old\<close> leaves \<open>s\<close> as it is.)\<close>

function replace :: "'a list \<Rightarrow> 'a list \<Rightarrow> 'a list \<Rightarrow> 'a list" where
  "replace old new [] = []"
| "replace old new (c # cs) =
     (if old \<noteq> [] \<and> startswith (c # cs) old
      then new @ replace old new (drop (length old) (c # cs))
      else c # replace old new cs)"
  by pat_completeness auto
termination
  by (relation "measure (\<lambda>(old, new, s). length s)") auto

definition isspace :: "char \<Rightarrow> bool" where
  "isspace c = (c \<in> set [CHR 0x09, CHR 0x0A, CHR 0x0B, CHR 0x0C, CHR 0x0D, CHR 0x1C, CHR 0x1D,
                          CHR 0x1E, CHR 0x1F, CHR 0x20, CHR 0x85, CHR 0xA0])"

text \<open>\<open>s.strip()\<close>.\<close>

definition strip :: "string \<Rightarrow> string" where
  "strip s = rev (dropWhile isspace (rev (dropWhile isspace s)))"

definition uppercase :: string where
  "uppercase = ''ABCDEFGHIJKLMNOPQRSTUVWXYZ'' @
     [CHR 0xC0, CHR 0xC1, CHR 0xC2, CHR 0xC3, CHR 0xC4, CHR 0xC5, CHR 0xC6, CHR 0xC7, CHR 0xC8,
      CHR 0xC9, CHR 0xCA, CHR 0xCB, CHR 0xCC, CHR 0xCD, CHR 0xCE, CHR 0xCF, CHR 0xD0, CHR 0xD1,
      CHR 0xD2, CHR 0xD3, CHR 0xD4, CHR 0xD5, CHR 0xD6, CHR 0xD8, CHR 0xD9, CHR 0xDA, CHR 0xDB,
      CHR 0xDC, CHR 0xDD, CHR 0xDE]"

definition lowercase :: string where
  "lowercase = ''abcdefghijklmnopqrstuvwxyz'' @
     [CHR 0xE0, CHR 0xE1, CHR 0xE2, CHR 0xE3, CHR 0xE4, CHR 0xE5, CHR 0xE6, CHR 0xE7, CHR 0xE8,
      CHR 0xE9, CHR 0xEA, CHR 0xEB, CHR 0xEC, CHR 0xED, CHR 0xEE, CHR 0xEF, CHR 0xF0, CHR 0xF1,
      CHR 0xF2, CHR 0xF3, CHR 0xF4, CHR 0xF5, CHR 0xF6, CHR 0xF8, CHR 0xF9, CHR 0xFA, CHR 0xFB,
      CHR 0xFC, CHR 0xFD, CHR 0xFE]"

text \<open>\<open>s.lower()\<close>.\<close>

definition lower :: "string \<Rightarrow> string" where
  "lower s = map (\<lambda>c. case map_of (zip uppercase lowercase) c of None \<Rightarrow> c | Some l \<Rightarrow> l) s"

text \<open>\<open>' '.join(parts)\<close>.\<close>

fun join_space :: "string list \<Rightarrow> string" where
  "join_space [] = []"
| "join_space [p] = p"
| "join_space (p # ps) = p @ '' '' @ join_space ps"

section \<open>Parsed markup\<close>

text \<open>
  The tree that BeautifulSoup builds (what \<open>utils.bs\<close> returns). A tag has a name, the
  values of its \<open>class\<close> attribute (BeautifulSoup keeps them as a list of the words of
  the attribute; \<open>None\<close> for a tag with no \<open>class\<close> attribute, \<open>Some []\<close> for an empty
  one), its other attributes, and its children in document order. The document itself
  is a tag.
\<close>

datatype node =
    NavigableString string
  | Tag string "string list option" "(string \<times> string) list" "node list"

fun tag_attrs :: "node \<Rightarrow> (string \<times> string) list" where
  "tag_attrs (NavigableString s) = []"
| "tag_attrs (Tag name classes attrs kids) = attrs"

fun contents :: "node \<Rightarrow> node list" where
  "contents (NavigableString s) = []"
| "contents (Tag name classes attrs kids) = kids"

text \<open>\<open>tag.text\<close>: every string below the tag, in document order.\<close>

fun text_of :: "node \<Rightarrow> string" where
  "text_of (NavigableString s) = s"
| "text_of (Tag name classes attrs kids) = concat (map text_of kids)"

text \<open>What \<open>find\<close> and \<open>find_all\<close> search: all nodes below a tag, in document order.\<close>

fun descendants :: "node \<Rightarrow> node list" where
  "descendants (NavigableString s) = []"
| "descendants (Tag name classes attrs kids) = concat (map (\<lambda>k. k # descendants k) kids)"

text \<open>The filters given to \<open>find\<close> and \<open>find_all\<close>: a tag name; \<open>{"class": c}\<close>,
  which matches when the tag has a \<open>class\<close> attribute and \<open>c\<close> is one of its words or
  is all its words joined by single blanks (\<open>base.py\<close> passes one word, or two words with
  one blank between them); \<open>{"id": v}\<close>.\<close>

fun is_tag :: "string \<Rightarrow> node \<Rightarrow> bool" where
  "is_tag name (NavigableString s) = False"
| "is_tag name (Tag name' classes attrs kids) = (name' = name)"

fun has_class :: "string \<Rightarrow> node \<Rightarrow> bool" where
  "has_class c (NavigableString s) = False"
| "has_class c (Tag name None attrs kids) = False"
| "has_class c (Tag name (Some classes) attrs kids) =
     (c \<in> set classes \<or> c = join_space classes)"

definition tag_class :: "string \<Rightarrow> string \<Rightarrow> node \<Rightarrow> bool" where
  "tag_class name c n = (is_tag name n \<and> has_class c n)"

definition tag_id :: "string \<Rightarrow> string \<Rightarrow> node \<Rightarrow> bool" where
  "tag_id name v n = (is_tag name n \<and> map_of (tag_attrs n) ''id'' = Some v)"

text \<open>\<open>t.find_all(...)\<close>, \<open>t.find_all(..., recursive=False)\<close> and \<open>t.find(...)\<close>.\<close>

definition bs_find_all :: "node \<Rightarrow> (node \<Rightarrow> bool) \<Rightarrow> node list" where
  "bs_find_all t p = filter p (descendants t)"

definition bs_find_all_direct :: "node \<Rightarrow> (node \<Rightarrow> bool) \<Rightarrow> node list" where
  "bs_find_all_direct t p = filter p (contents t)"

definition bs_find :: "node \<Rightarrow> (node \<Rightarrow> bool) \<Rightarrow> node option" where
  "bs_find t p = (case bs_find_all t p of [] \<Rightarrow> None | n # ns \<Rightarrow> Some n)"

section \<open>Python values, exceptions, log records\<close>

text \<open>The values a caller passes in \<open>filters\<close> and the values of the request parameters.\<close>

datatype pyval =
    PNone
  | PBool bool
  | PInt int
  | PStr string
  | PList "pyval list"
  | PTuple "pyval list"

text \<open>The values of the fields of a result. A geotag is a pair of floats; a float is kept
  as the text \<open>float()\<close> read it from.\<close>

datatype field =
    FNone
  | FBool bool
  | FStr string
  | FStrs "string list"
  | FGeotag string string

type_synonym result = "string \<rightharpoonup> field"

datatype error =
    KeyError
  | ValueError string
  | TypeError
  | AttributeError
  | UnboundLocalError
  | BrowserError

text \<open>What \<open>self.logger\<close> receives from \<open>get_filters\<close> and \<open>get_results\<close> at warning and
  error level (the debug messages, and what \<open>include_details\<close> logs and prints, are left
  out):
  \<open>InvalidOption opt key\<close> is the warning \<open>'opt' is not a valid option for key\<close>,
  \<open>InvalidFilter key\<close> the warning \<open>'key' is not a valid filter\<close>, \<open>ErrorMessage msg\<close> an
  error-level message.\<close>

datatype log_record =
    InvalidOption pyval string
  | InvalidFilter string
  | ErrorMessage string

fun truthy :: "pyval \<Rightarrow> bool" where
  "truthy PNone = False"
| "truthy (PBool b) = b"
| "truthy (PInt i) = (i \<noteq> 0)"
| "truthy (PStr s) = (s \<noteq> [])"
| "truthy (PList xs) = (xs \<noteq> [])"
| "truthy (PTuple xs) = (xs \<noteq> [])"

text \<open>\<open>utils.isiterable\<close> is not among the sources; it is taken to be Python's test that
  \<open>iter(var)\<close> succeeds.\<close>

fun isiterable :: "pyval \<Rightarrow> bool" where
  "isiterable (PStr s) = True"
| "isiterable (PList xs) = True"
| "isiterable (PTuple xs) = True"
| "isiterable v = False"

fun is_str :: "pyval \<Rightarrow> bool" where
  "is_str (PStr s) = True"
| "is_str v = False"

text \<open>A list is not hashable, and a tuple is when its items are.\<close>

fun hashable :: "pyval \<Rightarrow> bool" where
  "hashable (PList xs) = False"
| "hashable (PTuple xs) = list_all hashable xs"
| "hashable v = True"

section \<open>The filter tables\<close>

datatype filter_value =
    Unset
  | Literal pyval
  | Options "(string \<times> pyval) list"

record filter_spec =
  url_key :: string
  fvalue :: filter_value
  attr :: "string option"

type_synonym filter_table = "(string \<times> filter_spec) list"

definition base_filters :: filter_table where
  "base_filters =
    [(''query'', \<lparr>url_key = ''query'', fvalue = Unset, attr = None\<rparr>),
     (''search_titles'', \<lparr>url_key = ''srchType'', fvalue = Literal (PStr ''T''), attr = None\<rparr>),
     (''has_image'', \<lparr>url_key = ''hasPic'', fvalue = Literal (PInt 1), attr = None\<rparr>),
     (''posted_today'', \<lparr>url_key = ''postedToday'', fvalue = Literal (PInt 1), attr = None\<rparr>),
     (''bundle_duplicates'', \<lparr>url_key = ''bundleDuplicates'', fvalue = Literal (PInt 1), attr = None\<rparr>),
     (''search_distance'', \<lparr>url_key = ''search_distance'', fvalue = Unset, attr = None\<rparr>),
     (''zip_code'', \<lparr>url_key = ''postal'', fvalue = Unset, attr = None\<rparr>)]"

definition sort_by_options :: "(string \<times> string) list" where
  "sort_by_options =
    [(''newest'', ''date''), (''price_asc'', ''priceasc''), (''price_desc'', ''pricedsc'')]"

definition RESULTS_PER_REQUEST :: int where
  "RESULTS_PER_REQUEST = 100"

text \<open>
  An instance of \<open>CraigslistBase\<close>: its search \<open>url\<close>, its request parameters
  \<open>filters\<close>, the class attribute \<open>extra_filters\<close> (empty in the base class, set by a
  subclass) and \<open>list_filters\<close>, the table that \<open>get_list_filters(self.url)\<close> returns
  (fetched by \<open>utils.get_list_filters\<close> and cached by URL).
\<close>

record craigslist =
  url :: string
  filters :: "string \<rightharpoonup> pyval"
  extra_filters :: filter_table
  list_filters :: filter_table

section \<open>get_filters\<close>

text \<open>Line 98: \<open>self.base_filters.get(key) or self.extra_filters.get(key) or
  list_filters[key]\<close>. An entry of a table is a dict with keys, hence truthy.\<close>

definition lookup_filter :: "filter_table \<Rightarrow> filter_table \<Rightarrow> string \<Rightarrow> error + filter_spec" where
  "lookup_filter extra lf key =
     (case map_of base_filters key of
        Some f \<Rightarrow> Inr f
      | None \<Rightarrow>
          (case map_of extra key of
             Some f \<Rightarrow> Inr f
           | None \<Rightarrow> (case map_of lf key of Some f \<Rightarrow> Inr f | None \<Rightarrow> Inl KeyError)))"

text \<open>Line 108, \<open>valid_options[opt]\<close>: the option names of a table are strings.\<close>

definition lookup_option :: "(string \<times> pyval) list \<Rightarrow> pyval \<Rightarrow> error + pyval" where
  "lookup_option valid_options opt =
     (if \<not> hashable opt then Inl TypeError
      else (case opt of
              PStr s \<Rightarrow> (case map_of valid_options s of None \<Rightarrow> Inl KeyError | Some code \<Rightarrow> Inr code)
            | _ \<Rightarrow> Inl KeyError))"

text \<open>Lines 105 to 110: the loop over the requested options, with the options appended
  and the warnings logged so far.\<close>

fun resolve_options ::
  "(string \<times> pyval) list \<Rightarrow> string \<Rightarrow> pyval list \<Rightarrow> pyval list \<Rightarrow> log_record list
    \<Rightarrow> error + (pyval list \<times> log_record list)" where
  "resolve_options valid_options key [] options log = Inr (options, log)"
| "resolve_options valid_options key (opt # rest) options log =
     (case lookup_option valid_options opt of
        Inr code \<Rightarrow> resolve_options valid_options key rest (options @ [code]) log
      | Inl KeyError \<Rightarrow> resolve_options valid_options key rest options (log @ [InvalidOption opt key])
      | Inl e \<Rightarrow> Inl e)"

text \<open>What iterating a value gives (line 106).\<close>

fun force_list :: "pyval \<Rightarrow> pyval list" where
  "force_list (PList xs) = xs"
| "force_list (PTuple xs) = xs"
| "force_list v = [v]"

text \<open>Lines 103 and 104: a value that is a string or is not iterable becomes a list of
  one; the result is the list of the requested options.\<close>

definition requested_options :: "pyval \<Rightarrow> pyval list" where
  "requested_options v = (if \<not> isiterable v \<or> is_str v then [v] else force_list v)"

text \<open>Lines 97 to 115: the body of the loop over the requested filters.\<close>

definition parse_filter ::
  "craigslist \<Rightarrow> string \<times> pyval \<Rightarrow> (string \<rightharpoonup> pyval) \<times> log_record list
    \<Rightarrow> error + ((string \<rightharpoonup> pyval) \<times> log_record list)" where
  "parse_filter self entry acc =
     (case entry of (key, v) \<Rightarrow>
      (case acc of (parsed_filters, log) \<Rightarrow>
       (case lookup_filter (extra_filters self) (list_filters self) key of
          Inl e \<Rightarrow> Inr (parsed_filters, log @ [InvalidFilter key])
        | Inr filter_ \<Rightarrow>
            (case fvalue filter_ of
               Unset \<Rightarrow> Inr (parsed_filters(url_key filter_ \<mapsto> v), log)
             | Options valid_options \<Rightarrow>
                 (case resolve_options valid_options key (requested_options v) [] log of
                    Inl e \<Rightarrow> Inl e
                  | Inr (options, log') \<Rightarrow>
                      Inr (parsed_filters(url_key filter_ \<mapsto> PList options), log'))
             | Literal lit \<Rightarrow>
                 (if truthy v then Inr (parsed_filters(url_key filter_ \<mapsto> lit), log)
                  else Inr (parsed_filters, log))))))"

text \<open>
  What the loop body writes under the provider key of a filter for a requested value
  (lines 99 to 113): the value itself when the filter's literal is unset; the literal
  when the requested value is truthy; for a list filter, the list of the codes of the
  requested options that resolve, in the order requested.
\<close>

definition emits :: "filter_spec \<Rightarrow> pyval \<Rightarrow> pyval \<Rightarrow> bool" where
  "emits f v x =
     (case fvalue f of
        Unset \<Rightarrow> x = v
      | Literal lit \<Rightarrow> truthy v \<and> x = lit
      | Options valid \<Rightarrow>
          x = PList (List.map_filter
                       (\<lambda>opt. case lookup_option valid opt of Inr code \<Rightarrow> Some code | Inl e \<Rightarrow> None)
                       (requested_options v)))"

fun parse_filters ::
  "craigslist \<Rightarrow> (string \<times> pyval) list \<Rightarrow> (string \<rightharpoonup> pyval) \<times> log_record list
    \<Rightarrow> error + ((string \<rightharpoonup> pyval) \<times> log_record list)" where
  "parse_filters self [] acc = Inr acc"
| "parse_filters self (entry # rest) acc =
     (case parse_filter self entry acc of
        Inl e \<Rightarrow> Inl e
      | Inr acc' \<Rightarrow> parse_filters self rest acc')"

text \<open>\<open>get_filters(filters)\<close>: \<open>filters\<close> is \<open>None\<close> or a dict, given by its items in
  iteration order (\<open>filters or {}\<close> at line 96). The result is the parameter set with
  the warnings logged.\<close>

definition filter_items :: "(string \<times> pyval) list option \<Rightarrow> (string \<times> pyval) list" where
  "filter_items fs = (case fs of None \<Rightarrow> [] | Some items \<Rightarrow> items)"

definition get_filters ::
  "craigslist \<Rightarrow> (string \<times> pyval) list option
    \<Rightarrow> error + ((string \<rightharpoonup> pyval) \<times> log_record list)" where
  "get_filters self fs =
     parse_filters self (filter_items fs) ([''searchNearby'' \<mapsto> PInt 1], [])"

section \<open>The world outside\<close>

text \<open>
  What the browser session gives for one listing URL (lines 287 to 329 of \<open>base.py\<close>):
  whether \<open>driver.get\<close> raises; the \<open>href\<close> of the mail link when every step of the first
  \<open>try\<close> block succeeds (\<open>None\<close> when one of them raised); whether the
  \<open>except\<close> handler of that block raises itself (probing for the challenge frame,
  reading its \<open>src\<close>, calling the solver); the phone text when the second \<open>try\<close> block
  succeeds. \<open>BrowserError\<close> stands for whatever exception the browser session or that
  handler raises.
\<close>

record reveal =
  get_fails :: bool
  email_href :: "string option"
  handler_raises :: bool
  phone_text :: "string option"

text \<open>
  The library functions and the network. \<open>pyint\<close> is \<open>int()\<close> on a string (\<open>None\<close> for
  ValueError), \<open>pyfloat\<close> tells whether \<open>float()\<close> accepts a string, \<open>urljoin\<close> is
  \<open>urllib.parse.urljoin\<close> (\<open>None\<close> when it raises ValueError, as it does for a href
  whose host has an unmatched bracket). \<open>search_pages\<close> are the parsed answers to the successive
  requests for a page of results (\<open>None\<close> when \<open>utils.requests_get\<close> returns nothing);
  every request after the last of them returns nothing. \<open>detail_pages\<close> is the parsed
  answer to the request for a listing's own page.
\<close>

record env =
  urljoin :: "string \<Rightarrow> string \<Rightarrow> string option"
  pyint :: "string \<Rightarrow> int option"
  pyfloat :: "string \<Rightarrow> bool"
  search_pages :: "node option list"
  detail_pages :: "string \<Rightarrow> node option"
  get_driver_fails :: bool
  browser :: "string \<Rightarrow> reveal"

text \<open>The calls of \<open>utils.requests_get\<close>: for a page of results (the URL and the offset
  sent as \<open>s\<close>) and for a listing's page.\<close>

datatype request =
    SearchRequest string int
  | DetailRequest string

section \<open>geotag_result\<close>

definition geotag_result :: "env \<Rightarrow> result \<Rightarrow> node \<Rightarrow> error + result" where
  "geotag_result E result soup =
     (case bs_find soup (tag_id ''div'' ''map'') of
        None \<Rightarrow> Inr result
      | Some map_ \<Rightarrow>
          (case map_of (tag_attrs map_) ''data-latitude'' of
             None \<Rightarrow> Inl KeyError
           | Some lat \<Rightarrow>
               (if pyfloat E lat then
                  (case map_of (tag_attrs map_) ''data-longitude'' of
                     None \<Rightarrow> Inl KeyError
                   | Some lng \<Rightarrow>
                       (if pyfloat E lng then Inr (result(''geotag'' \<mapsto> FGeotag lat lng))
                        else Inl (ValueError ''could not convert string to float'')))
                else Inl (ValueError ''could not convert string to float''))))"

section \<open>parse_attrs\<close>

text \<open>Iterating \<open>result["attrs"]\<close>: a list gives its strings, a string its characters.\<close>

definition attr_items :: "result \<Rightarrow> error + string list" where
  "attr_items result =
     (case result ''attrs'' of
        None \<Rightarrow> Inl KeyError
      | Some (FStrs xs) \<Rightarrow> Inr xs
      | Some (FStr s) \<Rightarrow> Inr (map (\<lambda>c. [c]) s)
      | Some (FGeotag lat lng) \<Rightarrow> Inl AttributeError
      | Some v \<Rightarrow> Inl TypeError)"

text \<open>\<open>options["value"] != 1\<close> is false for \<open>1\<close> and for \<open>True\<close>.\<close>

fun is_one :: "filter_value \<Rightarrow> bool" where
  "is_one (Literal (PInt i)) = (i = 1)"
| "is_one (Literal (PBool b)) = b"
| "is_one v = False"

text \<open>Lines 379 to 383.\<close>

fun binary_fields :: "filter_table \<Rightarrow> string list \<Rightarrow> result \<Rightarrow> result" where
  "binary_fields [] attrs result = result"
| "binary_fields ((key, options) # rest) attrs result =
     (if is_one (fvalue options) then
        (if (case attr options of None \<Rightarrow> [] | Some a \<Rightarrow> a) \<in> set attrs
         then binary_fields rest attrs (result(key \<mapsto> FBool True))
         else binary_fields rest attrs result)
      else binary_fields rest attrs result)"

text \<open>Lines 389 to 393.\<close>

fun list_fields :: "filter_table \<Rightarrow> string list \<Rightarrow> result \<Rightarrow> error + result" where
  "list_fields [] attrs_after_colon result = Inr result"
| "list_fields ((key, options) # rest) attrs_after_colon result =
     (case fvalue options of
        Options valid_options \<Rightarrow>
          (case List.find (\<lambda>option. option \<in> set attrs_after_colon) (map fst valid_options) of
             None \<Rightarrow> list_fields rest attrs_after_colon result
           | Some option \<Rightarrow> list_fields rest attrs_after_colon (result(key \<mapsto> FStr option)))
      | _ \<Rightarrow> Inl AttributeError)"

definition parse_attrs :: "craigslist \<Rightarrow> result \<Rightarrow> error + result" where
  "parse_attrs self result =
     (case attr_items result of
        Inl e \<Rightarrow> Inl e
      | Inr items \<Rightarrow>
          list_fields (list_filters self) (map (split_once_last '': '') items)
            (binary_fields (extra_filters self) (map lower items) result))"

section \<open>include_details\<close>

text \<open>Line 285, \<open>not getattr(e, "attrs", None)\<close>: a string, or a tag whose dict of
  attributes is empty (an empty \<open>class\<close> attribute is an entry of that dict).\<close>

fun no_attrs :: "node \<Rightarrow> bool" where
  "no_attrs (NavigableString s) = True"
| "no_attrs (Tag name classes attrs kids) = (classes = None \<and> attrs = [])"

text \<open>Lines 287 to 329: the contact reveal through the browser.\<close>

definition reveal_contact :: "env \<Rightarrow> result \<Rightarrow> error + result" where
  "reveal_contact E result =
     (if get_driver_fails E then Inl BrowserError
      else (case result ''url'' of
              None \<Rightarrow> Inl KeyError
            | Some (FStr u) \<Rightarrow>
                (if get_fails (browser E u) then Inl BrowserError
                 else
                   (case (case email_href (browser E u) of
                            Some href \<Rightarrow>
                              Inr (result(''email'' \<mapsto>
                                     FStr (split_first ''?'' (replace ''mailto:'' [] href))))
                          | None \<Rightarrow>
                              (if handler_raises (browser E u) then Inl BrowserError
                               else Inr result)) of
                      Inl e \<Rightarrow> Inl e
                    | Inr result1 \<Rightarrow>
                        (case phone_text (browser E u) of
                           Some phone \<Rightarrow> Inr (result1(''phone'' \<mapsto> FStr phone))
                         | None \<Rightarrow> Inr result1)))
            | Some v \<Rightarrow> Inl BrowserError))"

text \<open>Lines 332 to 340: the loop over the paragraphs of the posting-info block.\<close>

fun created_loop :: "node list \<Rightarrow> result \<Rightarrow> error + result" where
  "created_loop [] result = Inr result"
| "created_loop (p # ps) result =
     (if str_contains ''posted'' (text_of p) then
        (case bs_find p (is_tag ''time'') of
           None \<Rightarrow> created_loop ps result
         | Some time \<Rightarrow>
             (case map_of (tag_attrs time) ''datetime'' of
                None \<Rightarrow> Inl KeyError
              | Some dt \<Rightarrow>
                  created_loop ps
                    (result(''created'' \<mapsto> FStr (rsplit_once_first CHR '':'' (replace ''T'' '' '' dt))))))
      else created_loop ps result)"

definition add_created :: "result \<Rightarrow> node \<Rightarrow> error + result" where
  "add_created result soup =
     (case bs_find soup (tag_class ''div'' ''postinginfos'') of
        None \<Rightarrow> Inl AttributeError
      | Some postinginfos \<Rightarrow> created_loop (bs_find_all postinginfos (is_tag ''p'')) result)"

text \<open>Lines 347 to 352: the loop over the image tags; a tag without \<open>src\<close> is passed over.\<close>

fun images_loop :: "node list \<Rightarrow> string list \<Rightarrow> string list" where
  "images_loop [] images = images"
| "images_loop (img # rest) images =
     (case map_of (tag_attrs img) ''src'' of
        None \<Rightarrow> images_loop rest images
      | Some src \<Rightarrow> images_loop rest (images @ [replace ''50x50c'' ''600x450'' src]))"

text \<open>Lines 343 to 352.\<close>

definition detail_images :: "node \<Rightarrow> string list" where
  "detail_images soup =
     (let image_tags = bs_find_all soup (is_tag ''img'')
      in images_loop (if length image_tags > 1 then tl image_tags else image_tags) [])"

text \<open>Lines 358 to 364.\<close>

definition detail_attrs :: "node \<Rightarrow> string list" where
  "detail_attrs soup =
     concat (map (\<lambda>attrgroup.
                filter (\<lambda>attr_text. attr_text \<noteq> [])
                  (map (\<lambda>a. strip (text_of a)) (bs_find_all attrgroup (is_tag ''span''))))
             (bs_find_all soup (tag_class ''p'' ''attrgroup'')))"

text \<open>\<open>include_details(result, soup)\<close> changes \<open>result\<close> in place; the model returns the
  changed result, or the exception that leaves the method.\<close>

definition include_details :: "env \<Rightarrow> craigslist \<Rightarrow> result \<Rightarrow> node \<Rightarrow> error + result" where
  "include_details E self result soup =
     (case bs_find soup (tag_id ''section'' ''postingbody'') of
        None \<Rightarrow> Inr (result(''deleted'' \<mapsto> FBool True))
      | Some body \<Rightarrow>
          (case reveal_contact E
                  (result(''body'' \<mapsto>
                     FStr (strip (concat (map text_of (filter no_attrs (contents body))))))) of
             Inl e \<Rightarrow> Inl e
           | Inr result1 \<Rightarrow>
               (case add_created result1 soup of
                  Inl e \<Rightarrow> Inl e
                | Inr result2 \<Rightarrow>
                    (case (if detail_attrs soup \<noteq> []
                           then parse_attrs self
                                  (result2(''images'' \<mapsto> FStrs (detail_images soup),
                                           ''attrs'' \<mapsto> FStrs (detail_attrs soup)))
                           else Inr (result2(''images'' \<mapsto> FStrs (detail_images soup),
                                             ''attrs'' \<mapsto> FStrs (detail_attrs soup)))) of
                       Inl e \<Rightarrow> Inl e
                     | Inr result3 \<Rightarrow>
                         (case bs_find soup (tag_class ''div'' ''mapaddress'') of
                            None \<Rightarrow> Inr result3
                          | Some mapaddress \<Rightarrow>
                              Inr (result3(''address'' \<mapsto> FStr (text_of mapaddress))))))))"

section \<open>process_row\<close>

definition fetch_content :: "env \<Rightarrow> string \<Rightarrow> node option" where
  "fetch_content E u = detail_pages E u"

text \<open>
  \<open>process_row\<close> returns the requests it sent with \<open>utils.requests_get\<close>, and its value
  (\<open>None\<close> or a result) or the exception that leaves it. Line 232 reads \<open>location\<close>, which
  only line 220 assigns, under \<open>if meta is not None\<close>: without a \<open>meta\<close> element Python
  raises UnboundLocalError there. Line 212 raises ValueError when \<open>urljoin\<close> does. \<open>custom_result_fields\<close> is \<open>False\<close> in the base class, so
  lines 252 and 253 do nothing.
\<close>

definition process_row ::
  "env \<Rightarrow> craigslist \<Rightarrow> node \<Rightarrow> bool \<Rightarrow> bool \<Rightarrow> request list \<times> (error + result option)" where
  "process_row E self row geotagged details =
     (if bs_find row (tag_class ''div'' ''gallery-card spacer'') \<noteq> None then ([], Inr None)
      else
       (case map_of (tag_attrs row) ''data-pid'' of
          None \<Rightarrow> ([], Inl KeyError)
        | Some pid \<Rightarrow>
       (case bs_find row (tag_class ''a'' ''main'') of
          None \<Rightarrow> ([], Inl AttributeError)
        | Some link \<Rightarrow>
       (case map_of (tag_attrs link) ''href'' of
          None \<Rightarrow> ([], Inl KeyError)
        | Some href \<Rightarrow>
       (case urljoin E (url self) href of
          None \<Rightarrow> ([], Inl (ValueError ''Invalid IPv6 URL''))
        | Some row_url \<Rightarrow>
       (case bs_find row (tag_class ''div'' ''meta'') of
          None \<Rightarrow> ([], Inl UnboundLocalError)
        | Some meta \<Rightarrow>
           (let location = split_last (CHR 0xB7) (text_of meta);
                result =
                  [''id'' \<mapsto> FStr pid,
                   ''repost_of'' \<mapsto>
                      (case map_of (tag_attrs row) ''data-repost-of'' of
                         None \<Rightarrow> FNone | Some r \<Rightarrow> FStr r),
                   ''name'' \<mapsto>
                      (case map_of (tag_attrs row) ''title'' of None \<Rightarrow> FNone | Some t \<Rightarrow> FStr t),
                   ''url'' \<mapsto> FStr row_url,
                   ''datetime'' \<mapsto> FNone,
                   ''last_updated'' \<mapsto> FNone,
                   ''price'' \<mapsto>
                      (case bs_find row (tag_class ''span'' ''priceinfo'') of
                         None \<Rightarrow> FNone | Some price \<Rightarrow> FStr (text_of price)),
                   ''where'' \<mapsto> (if location \<noteq> [] then FStr location else FNone),
                   ''has_image'' \<mapsto> FBool (bs_find row (tag_class ''div'' ''dots'') \<noteq> None),
                   ''geotag'' \<mapsto> FNone,
                   ''deleted'' \<mapsto> FBool False]
            in if geotagged \<or> details then
                 (case fetch_content E row_url of
                    None \<Rightarrow> ([DetailRequest row_url], Inr (Some result))
                  | Some detail_soup \<Rightarrow>
                      ([DetailRequest row_url],
                       (case (if geotagged then geotag_result E result detail_soup
                              else Inr result) of
                          Inl e \<Rightarrow> Inl e
                        | Inr result1 \<Rightarrow>
                            (case (if details then include_details E self result1 detail_soup
                                   else Inr result1) of
                               Inl e \<Rightarrow> Inl e
                             | Inr result2 \<Rightarrow> Inr (Some result2)))))
               else ([], Inr (Some result)))))))))"

section \<open>get_results\<close>

text \<open>\<open>get_results_approx_count(soup)\<close> with a soup given (line 176).\<close>

definition get_results_approx_count :: "env \<Rightarrow> node \<Rightarrow> error + int option" where
  "get_results_approx_count E soup =
     (case bs_find soup (tag_class ''span'' ''totalcount'') of
        None \<Rightarrow> Inr None
      | Some totalcount \<Rightarrow>
          (case pyint E (text_of totalcount) of
             None \<Rightarrow> Inl (ValueError ''invalid literal for int() with base 10'')
           | Some n \<Rightarrow> Inr (Some n)))"

text \<open>Line 182: the rows of a page, the \<open>li\<close> children of the \<open>ol\<close> with class
  \<open>cl-search-result\<close>.\<close>

definition listing_rows :: "node \<Rightarrow> node list" where
  "listing_rows rows = bs_find_all_direct rows (tag_class ''li'' ''cl-search-result'')"

text \<open>
  Lines 182 to 195, the loop over the rows of one page: what it yields, the requests
  sent, the exception that ended it if any, and the counters \<open>results_yielded\<close> and
  \<open>total_so_far\<close> after it. \<open>proc\<close> is \<open>process_row\<close> with the flags of the call.
\<close>

fun rows_loop ::
  "(node \<Rightarrow> request list \<times> (error + result option)) \<Rightarrow> int \<Rightarrow> node list \<Rightarrow> int \<Rightarrow> int
    \<Rightarrow> result option list \<times> request list \<times> error option \<times> int \<times> int" where
  "rows_loop proc limit [] results_yielded total_so_far =
     ([], [], None, results_yielded, total_so_far)"
| "rows_loop proc limit (row # rest) results_yielded total_so_far =
     (if results_yielded \<ge> limit then ([], [], None, results_yielded, total_so_far)
      else
        (case proc row of
           (reqs, Inl e) \<Rightarrow> ([], reqs, Some e, results_yielded, total_so_far)
         | (reqs, Inr item) \<Rightarrow>
             (case rows_loop proc limit rest (results_yielded + 1) (total_so_far + 1) of
                (items, reqs', raised, results_yielded', total_so_far') \<Rightarrow>
                  (item # items, reqs @ reqs', raised, results_yielded', total_so_far'))))"

text \<open>
  What iterating the generator to its end gives: what it yielded, grouped by the page
  that was being read (the generator yields the concatenation \<open>yielded\<close>), the requests
  sent, the exception that ended the iteration if any, the messages logged, and the
  request parameters of the object afterwards.
\<close>

record outcome =
  page_yields :: "result option list list"
  requested :: "request list"
  raised :: "error option"
  logged :: "log_record list"
  filters_after :: "string \<rightharpoonup> pyval"

definition yielded :: "outcome \<Rightarrow> result option list" where
  "yielded out = concat (page_yields out)"

text \<open>Lines 178 to 180: the declared result count of a page.\<close>

definition page_limit :: "env \<Rightarrow> node \<Rightarrow> error + (node \<times> int)" where
  "page_limit E soup =
     (case bs_find soup (is_tag ''ol'') of
        None \<Rightarrow> Inl AttributeError
      | Some rows \<Rightarrow>
          (case bs_find rows (tag_class ''div'' ''result-count'') of
             None \<Rightarrow> Inl AttributeError
           | Some result_count \<Rightarrow>
               (case pyint E (split_first '' '' (text_of result_count)) of
                  None \<Rightarrow> Inl (ValueError ''invalid literal for int() with base 10'')
                | Some limit \<Rightarrow> Inr (rows, limit))))"

text \<open>Lines 167 to 200, the \<open>while True\<close> loop, run against the answers still to come.\<close>

fun pages_loop ::
  "env \<Rightarrow> craigslist \<Rightarrow> bool \<Rightarrow> bool \<Rightarrow> node option list \<Rightarrow> int \<Rightarrow> int \<Rightarrow> int \<Rightarrow> int option
    \<Rightarrow> outcome" where
  "pages_loop E self geotagged details [] start total_so_far results_yielded total_count =
     \<lparr>page_yields = [], requested = [SearchRequest (url self) start], raised = None,
      logged = [], filters_after = (filters self)(''s'' \<mapsto> PInt start)\<rparr>"
| "pages_loop E self geotagged details (None # answers) start total_so_far results_yielded total_count =
     \<lparr>page_yields = [], requested = [SearchRequest (url self) start], raised = None,
      logged = [], filters_after = (filters self)(''s'' \<mapsto> PInt start)\<rparr>"
| "pages_loop E self geotagged details (Some soup # answers) start total_so_far results_yielded total_count =
     (case (if total_count = None \<or> total_count = Some 0 then get_results_approx_count E soup
            else Inr total_count) of
        Inl e \<Rightarrow>
          \<lparr>page_yields = [], requested = [SearchRequest (url self) start], raised = Some e,
           logged = [], filters_after = (filters self)(''s'' \<mapsto> PInt start)\<rparr>
      | Inr total_count' \<Rightarrow>
          (case page_limit E soup of
             Inl e \<Rightarrow>
               \<lparr>page_yields = [], requested = [SearchRequest (url self) start], raised = Some e,
                logged = [], filters_after = (filters self)(''s'' \<mapsto> PInt start)\<rparr>
           | Inr (rows, limit) \<Rightarrow>
               (case rows_loop
                       (\<lambda>row. process_row E
                                (self\<lparr>filters := (filters self)(''s'' \<mapsto> PInt start)\<rparr>)
                                row geotagged details)
                       limit (listing_rows rows)
                       results_yielded total_so_far of
                  (items, reqs, err, results_yielded', total_so_far') \<Rightarrow>
                    (if err \<noteq> None \<or> total_so_far' - start < RESULTS_PER_REQUEST then
                       \<lparr>page_yields = [items],
                        requested = SearchRequest (url self) start # reqs,
                        raised = err, logged = [],
                        filters_after = (filters self)(''s'' \<mapsto> PInt start)\<rparr>
                     else
                       (let rest = pages_loop E
                                     (self\<lparr>filters := (filters self)(''s'' \<mapsto> PInt start)\<rparr>)
                                     geotagged details answers total_so_far' total_so_far'
                                     results_yielded' total_count'
                        in rest\<lparr>page_yields := items # page_yields rest,
                                requested := SearchRequest (url self) start # reqs @ requested rest\<rparr>)))))"

text \<open>Line 159.\<close>

definition sort_by_message :: "string \<Rightarrow> string" where
  "sort_by_message sort_by =
     [CHR 0x27] @ sort_by @ [CHR 0x27] @
     '' is not a valid sort_by option, use: 'newest', 'price_asc' or 'price_desc'' @ [CHR 0x27]"

text \<open>
  \<open>get_results(limit, start, sort_by, geotagged, include_details)\<close>, iterated to its end.
  \<open>sort_by\<close> is \<open>None\<close> or a string. The argument \<open>limit\<close> is never read: line 180 assigns
  \<open>limit\<close> before line 183 first reads it.
\<close>

definition get_results ::
  "env \<Rightarrow> craigslist \<Rightarrow> int option \<Rightarrow> int \<Rightarrow> string option \<Rightarrow> bool \<Rightarrow> bool \<Rightarrow> outcome" where
  "get_results E self limit start sort_by geotagged details =
     (case (case sort_by of
              None \<Rightarrow> Inr self
            | Some k \<Rightarrow>
                (if k \<noteq> [] then
                   (case map_of sort_by_options k of
                      None \<Rightarrow> Inl (sort_by_message k)
                    | Some v \<Rightarrow> Inr (self\<lparr>filters := (filters self)(''sort'' \<mapsto> PStr v)\<rparr>))
                 else Inr self)) of
        Inl msg \<Rightarrow>
          \<lparr>page_yields = [], requested = [], raised = Some (ValueError msg),
           logged = [ErrorMessage msg], filters_after = filters self\<rparr>
      | Inr self1 \<Rightarrow>
          pages_loop E self1 geotagged details (search_pages E) start start 0 (Some 0))"

section \<open>Example pages\<close>

text \<open>\<open>int(s)\<close> and \<open>float(s)\<close> on a string of code points below 256, as Python 3 reads
  them: surrounding whitespace is stripped, one sign is allowed, and the digits may be grouped
  by single underscores. \<open>int\<close> gives the value (\<open>None\<close> for ValueError); of \<open>float\<close> only
  whether it accepts the string is needed. (The interpreter's limit of 4300 digits for \<open>int\<close>
  is left out.)\<close>

definition isdigit :: "char \<Rightarrow> bool" where
  "isdigit c = (c \<in> set ''0123456789'')"

fun digitpart :: "string \<Rightarrow> bool" where
  "digitpart [] = False"
| "digitpart [c] = isdigit c"
| "digitpart (c # d # cs) =
     (isdigit c \<and> (if d = CHR ''_'' then digitpart cs else digitpart (d # cs)))"

fun strip_sign :: "string \<Rightarrow> string" where
  "strip_sign [] = []"
| "strip_sign (c # cs) = (if c = CHR ''+'' \<or> c = CHR ''-'' then cs else c # cs)"

fun digits_value :: "string \<Rightarrow> int \<Rightarrow> int option" where
  "digits_value [] acc = Some acc"
| "digits_value (c # cs) acc =
     (case map_of [(CHR ''0'', 0), (CHR ''1'', 1), (CHR ''2'', 2), (CHR ''3'', 3), (CHR ''4'', 4),
                   (CHR ''5'', 5), (CHR ''6'', 6), (CHR ''7'', 7), (CHR ''8'', 8), (CHR ''9'', 9)] c of
        None \<Rightarrow> None
      | Some d \<Rightarrow> digits_value cs (10 * acc + d))"

definition example_int :: "string \<Rightarrow> int option" where
  "example_int s =
     (let t = strip s; body = strip_sign t in
      if digitpart body
      then map_option (\<lambda>n. if startswith t ''-'' then - n else n)
             (digits_value (filter (\<lambda>c. c \<noteq> CHR ''_'') body) 0)
      else None)"

text \<open>The mantissa of a decimal literal: digits, with a point before, after or among them.\<close>

definition pointfloat :: "string \<Rightarrow> bool" where
  "pointfloat s =
     (case str_partition ''.'' s of
        None \<Rightarrow> digitpart s
      | Some (whole, fraction) \<Rightarrow>
          (whole = [] \<and> digitpart fraction)
          \<or> (digitpart whole \<and> (fraction = [] \<or> digitpart fraction)))"

text \<open>\<open>float\<close> accepts \<open>inf\<close>, \<open>infinity\<close> and \<open>nan\<close> in any case, and a mantissa with an
  optional exponent (\<open>e\<close> or \<open>E\<close>, an optional sign, digits).\<close>

definition example_float :: "string \<Rightarrow> bool" where
  "example_float s =
     (let body = strip_sign (strip s);
          mantissa = takeWhile (\<lambda>c. c \<noteq> CHR ''e'' \<and> c \<noteq> CHR ''E'') body;
          exponent = dropWhile (\<lambda>c. c \<noteq> CHR ''e'' \<and> c \<noteq> CHR ''E'') body in
      lower body \<in> set [''inf'', ''infinity'', ''nan'']
      \<or> (pointfloat mantissa \<and> (exponent = [] \<or> digitpart (strip_sign (tl exponent)))))"

definition quiet_browser :: "string \<Rightarrow> reveal" where
  "quiet_browser u =
     \<lparr>get_fails = False, email_href = None, handler_raises = False, phone_text = None\<rparr>"

text \<open>An environment without network answers; the example hrefs are absolute, for which
  \<open>urljoin\<close> returns the href.\<close>

definition example_env :: env where
  "example_env =
     \<lparr>urljoin = (\<lambda>base href. Some href), pyint = example_int, pyfloat = example_float,
      search_pages = [], detail_pages = (\<lambda>u. None), get_driver_fails = False,
      browser = quiet_browser\<rparr>"

definition example_self :: craigslist where
  "example_self =
     \<lparr>url = ''https://newyork.craigslist.org/search/sss'',
      filters = [''searchNearby'' \<mapsto> PInt 1], extra_filters = [], list_filters = []\<rparr>"

definition document :: "node list \<Rightarrow> node" where
  "document kids = Tag ''[document]'' None [] kids"

text \<open>A listing row with a price and a location, a row without the \<open>meta\<close> element, a row
  without the price element, and a spacer row.\<close>

definition listing_row :: node where
  "listing_row =
     Tag ''li'' (Some [''cl-search-result'']) [(''data-pid'', ''7001''), (''title'', ''apple'')]
       [Tag ''a'' (Some [''main'']) [(''href'', ''https://newyork.craigslist.org/d/7001.html'')] [],
        Tag ''span'' (Some [''priceinfo'']) [] [NavigableString ''$25''],
        Tag ''div'' (Some [''meta'']) [] [NavigableString (''1h ago'' @ [CHR 0xB7] @ ''Brooklyn'')]]"

definition row_without_meta :: node where
  "row_without_meta =
     Tag ''li'' (Some [''cl-search-result'']) [(''data-pid'', ''7002''), (''title'', ''pear'')]
       [Tag ''a'' (Some [''main'']) [(''href'', ''https://newyork.craigslist.org/d/7002.html'')] [],
        Tag ''span'' (Some [''priceinfo'']) [] [NavigableString ''$5'']]"

definition row_without_price :: node where
  "row_without_price =
     Tag ''li'' (Some [''cl-search-result'']) [(''data-pid'', ''7003''), (''title'', ''plum'')]
       [Tag ''a'' (Some [''main'']) [(''href'', ''https://newyork.craigslist.org/d/7003.html'')] [],
        Tag ''div'' (Some [''meta'']) [] [NavigableString (''2h ago'' @ [CHR 0xB7] @ ''Queens'')]]"

definition spacer_row :: node where
  "spacer_row =
     Tag ''li'' (Some [''cl-search-result'']) [] [Tag ''div'' (Some [''gallery-card'', ''spacer'']) [] []]"

text \<open>A page of results: the \<open>ol\<close> with its declared count and its rows.\<close>

definition results_page :: "string \<Rightarrow> node list \<Rightarrow> node" where
  "results_page count rows =
     document [Tag ''ol'' None []
                 (Tag ''div'' (Some [''result-count'']) [] [NavigableString (count @ '' results'')] # rows)]"

text \<open>The summary record of \<open>listing_row\<close>.\<close>

definition listing_result :: result where
  "listing_result =
     [''id'' \<mapsto> FStr ''7001'', ''repost_of'' \<mapsto> FNone, ''name'' \<mapsto> FStr ''apple'',
      ''url'' \<mapsto> FStr ''https://newyork.craigslist.org/d/7001.html'',
      ''datetime'' \<mapsto> FNone, ''last_updated'' \<mapsto> FNone, ''price'' \<mapsto> FStr ''$25'',
      ''where'' \<mapsto> FStr ''Brooklyn'', ''has_image'' \<mapsto> FBool False, ''geotag'' \<mapsto> FNone,
      ''deleted'' \<mapsto> FBool False]"

text \<open>Detail pages: one without a body section; one with a body, a posting-info block
  whose time is written with the given \<open>datetime\<close>, and the given images.\<close>

definition deleted_page :: node where
  "deleted_page =
     document [Tag ''div'' (Some [''removed'']) [] [NavigableString ''This posting has been deleted'']]"

definition detail_page :: "string \<Rightarrow> node list \<Rightarrow> node" where
  "detail_page dt imgs =
     document
       ([Tag ''section'' None [(''id'', ''postingbody'')] [NavigableString '' Fresh apples. ''],
         Tag ''div'' (Some [''postinginfos'']) []
           [Tag ''p'' (Some [''postinginfo'']) [] [NavigableString ''post id: 7001''],
            Tag ''p'' (Some [''postinginfo'']) []
              [NavigableString ''posted: '', Tag ''time'' None [(''datetime'', dt)] []]]] @ imgs)"

definition img :: "string \<Rightarrow> node" where
  "img src = Tag ''img'' None [(''src'', src)] []"

text \<open>Map elements: with both coordinates, and with the latitude only.\<close>

definition map_page :: "(string \<times> string) list \<Rightarrow> node" where
  "map_page coords = document [Tag ''div'' None ((''id'', ''map'') # coords) []]"





definition page_with_spacer :: env where
  "page_with_spacer = example_env\<lparr>search_pages :=
      [Some (results_page ''3'' [listing_row, spacer_row, listing_row])]\<rparr>"

definition page_spacer_first :: env where
  "page_spacer_first = example_env\<lparr>search_pages :=
      [Some (results_page ''2'' [spacer_row, listing_row])]\<rparr>"

text \<open>Objects with a list filter: \<open>condition\<close>, and one whose provider key is that of
  the base filter \<open>zip_code\<close>.\<close>

definition for_sale :: craigslist where
  "for_sale = example_self\<lparr>list_filters :=
      [(''condition'',
        \<lparr>url_key = ''condition'',
         fvalue = Options [(''new'', PStr ''10''), (''like new'', PStr ''20'')],
         attr = None\<rparr>)]\<rparr>"

definition with_postal :: craigslist where
  "with_postal = example_self\<lparr>list_filters :=
      [(''postal'',
        \<lparr>url_key = ''postal'', fvalue = Options [(''a'', PStr ''1'')], attr = None\<rparr>)]\<rparr>"

section \<open>Evaluating the examples\<close>

lemmas example_defs =
  example_env_def example_self_def document_def listing_row_def row_without_meta_def
  row_without_price_def spacer_row_def results_page_def listing_result_def deleted_page_def
  detail_page_def img_def map_page_def quiet_browser_def example_int_def example_float_def
  pointfloat_def isdigit_def strip_def isspace_def lower_def uppercase_def lowercase_def

lemmas soup_defs = bs_find_def bs_find_all_def bs_find_all_direct_def tag_class_def tag_id_def

lemmas results_defs =
  get_results_def page_limit_def get_results_approx_count_def process_row_def split_first_def
  split_last_def RESULTS_PER_REQUEST_def sort_by_options_def listing_rows_def

lemmas filters_defs =
  get_filters_def filter_items_def parse_filter_def lookup_filter_def base_filters_def
  lookup_option_def requested_options_def for_sale_def with_postal_def example_self_def

lemmas detail_defs =
  include_details_def reveal_contact_def add_created_def str_contains_def detail_attrs_def
  detail_images_def rsplit_once_first_def strip_def isspace_def

lemma process_row_listing_row:
  "process_row example_env example_self listing_row False False = ([], Inr (Some listing_result))"
  by (simp add: process_row_def example_defs soup_defs split_last_def)

lemma process_row_spacer_row:
  "process_row example_env example_self spacer_row False False = ([], Inr None)"
  by (simp add: process_row_def example_defs soup_defs)

section \<open>The loop over the requested filters\<close>

lemma lookup_filter_Inl: "lookup_filter extra lf key = Inl e \<Longrightarrow> e = KeyError"
  by (auto simp add: lookup_filter_def split: option.splits)

text \<open>The codes of the requested options that resolve, in the order requested.\<close>

lemma resolve_options_Inr:
  "resolve_options valid key opts options log = Inr (os, l) \<Longrightarrow>
     os = options @ List.map_filter
                      (\<lambda>opt. case lookup_option valid opt of Inr code \<Rightarrow> Some code | Inl e \<Rightarrow> None) opts
     \<and> l = log @ map (\<lambda>opt. InvalidOption opt key)
                   (filter (\<lambda>opt. lookup_option valid opt = Inl KeyError) opts)"
proof (induction opts arbitrary: options log)
  case Nil
  then show ?case by (simp add: List.map_filter_simps)
next
  case (Cons opt rest)
  show ?case
  proof (cases "lookup_option valid opt")
    case (Inr code)
    with Cons.prems have "resolve_options valid key rest (options @ [code]) log = Inr (os, l)"
      by simp
    from Cons.IH [OF this] Inr show ?thesis by (simp add: List.map_filter_simps)
  next
    case (Inl e)
    with Cons.prems have e: "e = KeyError"
      by (cases e) simp_all
    with Cons.prems Inl
    have "resolve_options valid key rest options (log @ [InvalidOption opt key]) = Inr (os, l)"
      by simp
    from Cons.IH [OF this] Inl e show ?thesis by (simp add: List.map_filter_simps)
  qed
qed

lemma resolve_options_log:
  "map_sum id fst (resolve_options valid key opts options log)
     = map_sum id fst (resolve_options valid key opts options log')"
proof (induction opts arbitrary: options log log')
  case Nil
  then show ?case by simp
next
  case (Cons opt rest)
  show ?case
  proof (cases "lookup_option valid opt")
    case (Inr code)
    then show ?thesis using Cons.IH by simp
  next
    case (Inl e)
    then show ?thesis using Cons.IH by (cases e) simp_all
  qed
qed

lemma resolve_options_unresolved:
  "\<forall>opt \<in> set opts. lookup_option valid opt = Inl KeyError \<Longrightarrow>
     resolve_options valid key opts options log
       = Inr (options, log @ map (\<lambda>opt. InvalidOption opt key) opts)"
  by (induction opts arbitrary: log) simp_all

lemma parse_filter_Inr:
  assumes "parse_filter self (key, v) (p, l) = Inr (p', l')"
  shows "(lookup_filter (extra_filters self) (list_filters self) key = Inl KeyError
            \<and> p' = p \<and> l' = l @ [InvalidFilter key])
         \<or> (\<exists>f. lookup_filter (extra_filters self) (list_filters self) key = Inr f
               \<and> (p' = p \<or> (\<exists>x. emits f v x \<and> p' = p(url_key f \<mapsto> x)))
               \<and> (\<exists>ws. l' = l @ ws \<and> (\<forall>w \<in> set ws. \<exists>opt. w = InvalidOption opt key)))"
proof (cases "lookup_filter (extra_filters self) (list_filters self) key")
  case (Inl e)
  with lookup_filter_Inl [OF Inl] assms show ?thesis
    by (simp add: parse_filter_def)
next
  case (Inr f)
  show ?thesis
  proof (cases "fvalue f")
    case Unset
    with Inr assms show ?thesis by (auto simp add: parse_filter_def emits_def)
  next
    case (Literal lit)
    with Inr assms show ?thesis by (auto simp add: parse_filter_def emits_def split: if_splits)
  next
    case (Options valid)
    with Inr assms obtain os where
      r: "resolve_options valid key (requested_options v) [] l = Inr (os, l')"
      and p': "p' = p(url_key f \<mapsto> PList os)"
      by (auto simp add: parse_filter_def split: sum.splits)
    from resolve_options_Inr [OF r] Options Inr p' show ?thesis
      by (auto simp add: emits_def)
  qed
qed

lemma parse_filter_log:
  "map_sum id fst (parse_filter self entry (p, l)) = map_sum id fst (parse_filter self entry (p, l'))"
proof -
  obtain key v where e: "entry = (key, v)" by (cases entry)
  show ?thesis
  proof (cases "lookup_filter (extra_filters self) (list_filters self) key")
    case (Inl e')
    with e show ?thesis by (simp add: parse_filter_def)
  next
    case (Inr f)
    show ?thesis
    proof (cases "fvalue f")
      case (Options valid)
      from resolve_options_log [of valid key "requested_options v" "[]" l l']
      show ?thesis using e Inr Options
        by (auto simp add: parse_filter_def split: sum.splits)
    qed (use e Inr in \<open>simp_all add: parse_filter_def\<close>)
  qed
qed

lemma parse_filters_log:
  "map_sum id fst (parse_filters self entries (p, l)) = map_sum id fst (parse_filters self entries (p, l'))"
proof (induction entries arbitrary: p l l')
  case Nil
  then show ?case by simp
next
  case (Cons entry rest)
  from parse_filter_log [of self entry p l l'] show ?case
    by (cases "parse_filter self entry (p, l)"; cases "parse_filter self entry (p, l')")
       (auto simp add: Cons.IH [unfolded id_def])
qed

lemma parse_filters_values:
  assumes "parse_filters self entries (p, l) = Inr (p', l')" and "p' uk = Some x"
  shows "p uk = Some x
         \<or> (\<exists>key v f. (key, v) \<in> set entries
               \<and> lookup_filter (extra_filters self) (list_filters self) key = Inr f
               \<and> url_key f = uk \<and> emits f v x)"
  using assms
proof (induction entries arbitrary: p l)
  case Nil
  then show ?case by simp
next
  case (Cons entry rest)
  obtain key v where e: "entry = (key, v)" by (cases entry)
  from Cons.prems(1) obtain p1 l1 where
    s: "parse_filter self (key, v) (p, l) = Inr (p1, l1)"
    and r: "parse_filters self rest (p1, l1) = Inr (p', l')"
    unfolding e by (auto split: sum.splits)
  from Cons.IH [OF r Cons.prems(2)] show ?case
  proof
    assume p1: "p1 uk = Some x"
    from parse_filter_Inr [OF s] consider
      (same) "p1 = p"
      | (written) f x' where "lookup_filter (extra_filters self) (list_filters self) key = Inr f"
          "emits f v x'" "p1 = p(url_key f \<mapsto> x')"
      by auto
    then show ?thesis
    proof cases
      case same
      with p1 show ?thesis by simp
    next
      case written
      show ?thesis
      proof (cases "uk = url_key f")
        case True
        with written p1 have "x' = x" by simp
        with written True have "(key, v) \<in> set (entry # rest)
               \<and> lookup_filter (extra_filters self) (list_filters self) key = Inr f
               \<and> url_key f = uk \<and> emits f v x"
          using e by simp
        then show ?thesis by blast
      next
        case False
        with written p1 show ?thesis by simp
      qed
    qed
  next
    assume "\<exists>key v f. (key, v) \<in> set rest
               \<and> lookup_filter (extra_filters self) (list_filters self) key = Inr f
               \<and> url_key f = uk \<and> emits f v x"
    then show ?thesis by auto
  qed
qed

lemma parse_filters_log_grows:
  "parse_filters self entries (p, l) = Inr (p', l') \<Longrightarrow> \<exists>ws. l' = l @ ws"
proof (induction entries arbitrary: p l)
  case Nil
  then show ?case by simp
next
  case (Cons entry rest)
  obtain key v where e: "entry = (key, v)" by (cases entry)
  from Cons.prems obtain p1 l1 where
    s: "parse_filter self (key, v) (p, l) = Inr (p1, l1)"
    and r: "parse_filters self rest (p1, l1) = Inr (p', l')"
    unfolding e by (auto split: sum.splits)
  from parse_filter_Inr [OF s] obtain ws1 where "l1 = l @ ws1" by auto
  with Cons.IH [OF r] show ?case by auto
qed

lemma parse_filters_warns:
  assumes "parse_filters self entries (p, l) = Inr (p', l')" and "(key, v) \<in> set entries"
    and "lookup_filter (extra_filters self) (list_filters self) key = Inl KeyError"
  shows "InvalidFilter key \<in> set l'"
  using assms(1,2)
proof (induction entries arbitrary: p l)
  case Nil
  then show ?case by simp
next
  case (Cons entry rest)
  obtain key1 v1 where e: "entry = (key1, v1)" by (cases entry)
  from Cons.prems(1) obtain p1 l1 where
    s: "parse_filter self (key1, v1) (p, l) = Inr (p1, l1)"
    and r: "parse_filters self rest (p1, l1) = Inr (p', l')"
    unfolding e by (auto split: sum.splits)
  show ?case
  proof (cases "(key, v) \<in> set rest")
    case True
    from Cons.IH [OF r True] show ?thesis .
  next
    case False
    with Cons.prems(2) e have k: "key1 = key" by simp
    from parse_filter_Inr [OF s] assms(3) k have "InvalidFilter key \<in> set l1" by auto
    with parse_filters_log_grows [OF r] show ?thesis by auto
  qed
qed

lemma parse_filters_drop_unknown:
  "map_sum id fst (parse_filters self entries (p, l))
     = map_sum id fst
         (parse_filters self
            (filter (\<lambda>(key, v). lookup_filter (extra_filters self) (list_filters self) key
                                   \<noteq> Inl KeyError) entries) (p, l))"
proof (induction entries arbitrary: p l)
  case Nil
  then show ?case by simp
next
  case (Cons entry rest)
  obtain key v where e: "entry = (key, v)" by (cases entry)
  show ?case
  proof (cases "lookup_filter (extra_filters self) (list_filters self) key = Inl KeyError")
    case True
    then have "parse_filter self (key, v) (p, l) = Inr (p, l @ [InvalidFilter key])"
      by (simp add: parse_filter_def)
    with True e show ?thesis
      using Cons.IH [of p l] parse_filters_log [of self rest p "l @ [InvalidFilter key]" l]
      by (simp add: id_def)
  next
    case False
    show ?thesis
    proof (cases "parse_filter self (key, v) (p, l)")
      case (Inl err)
      with False e show ?thesis by simp
    next
      case (Inr acc)
      obtain p1 l1 where "acc = (p1, l1)" by (cases acc)
      with Inr False e Cons.IH [of p1 l1] show ?thesis by simp
    qed
  qed
qed

lemma parse_filters_append:
  "parse_filters self (xs @ ys) acc
     = (case parse_filters self xs acc of Inl e \<Rightarrow> Inl e | Inr acc' \<Rightarrow> parse_filters self ys acc')"
  by (induction xs arbitrary: acc) (simp_all split: sum.splits)

lemma parse_filters_untouched:
  assumes "parse_filters self entries (p, l) = Inr (p', l')"
    and "\<forall>(k, v) \<in> set entries. \<forall>f. lookup_filter (extra_filters self) (list_filters self) k = Inr f
            \<longrightarrow> url_key f \<noteq> uk"
  shows "p' uk = p uk"
  using assms
proof (induction entries arbitrary: p l)
  case Nil
  then show ?case by simp
next
  case (Cons entry rest)
  obtain key v where e: "entry = (key, v)" by (cases entry)
  from Cons.prems(1) obtain p1 l1 where
    s: "parse_filter self (key, v) (p, l) = Inr (p1, l1)"
    and r: "parse_filters self rest (p1, l1) = Inr (p', l')"
    unfolding e by (auto split: sum.splits)
  from Cons.prems(2) have rest: "\<forall>(k, v) \<in> set rest. \<forall>f.
       lookup_filter (extra_filters self) (list_filters self) k = Inr f \<longrightarrow> url_key f \<noteq> uk"
    by simp
  from parse_filter_Inr [OF s] Cons.prems(2) e have "p1 uk = p uk" by auto
  with Cons.IH [OF r rest] show ?case by simp
qed

lemma parse_filter_unresolved:
  assumes "lookup_filter (extra_filters self) (list_filters self) key = Inr f"
    and "fvalue f = Options valid"
    and "\<forall>opt \<in> set (requested_options v). lookup_option valid opt = Inl KeyError"
  shows "parse_filter self (key, v) (p, l)
           = Inr (p(url_key f \<mapsto> PList []),
                  l @ map (\<lambda>opt. InvalidOption opt key) (requested_options v))"
  using assms by (simp add: parse_filter_def resolve_options_unresolved)

lemma lookup_option_hashable:
  "hashable opt \<Longrightarrow>
     lookup_option valid opt = Inl KeyError \<or> (\<exists>code. lookup_option valid opt = Inr code)"
  by (cases opt) (auto simp add: lookup_option_def split: option.splits)

lemma resolve_options_total:
  "list_all hashable opts \<Longrightarrow> \<exists>os l. resolve_options valid key opts options log = Inr (os, l)"
proof (induction opts arbitrary: options log)
  case Nil
  then show ?case by simp
next
  case (Cons opt rest)
  then have h: "hashable opt" and r: "list_all hashable rest" by simp_all
  from lookup_option_hashable [OF h, of valid] show ?case
    using Cons.IH [OF r] by auto
qed

lemma parse_filter_total:
  assumes "list_all hashable (requested_options v)"
  shows "\<exists>acc'. parse_filter self (key, v) acc = Inr acc'"
proof -
  obtain p l where acc: "acc = (p, l)" by (cases acc)
  show ?thesis
  proof (cases "lookup_filter (extra_filters self) (list_filters self) key")
    case (Inl e)
    with acc show ?thesis by (simp add: parse_filter_def)
  next
    case (Inr f)
    show ?thesis
    proof (cases "fvalue f")
      case (Options valid)
      from resolve_options_total [OF assms, of valid key "[]" l]
      show ?thesis using acc Inr Options by (auto simp add: parse_filter_def)
    qed (use acc Inr in \<open>simp_all add: parse_filter_def\<close>)
  qed
qed

lemma parse_filters_total:
  "\<forall>(key, v) \<in> set entries. list_all hashable (requested_options v) \<Longrightarrow>
     \<exists>acc'. parse_filters self entries acc = Inr acc'"
proof (induction entries arbitrary: acc)
  case Nil
  then show ?case by simp
next
  case (Cons entry rest)
  obtain key v where e: "entry = (key, v)" by (cases entry)
  with Cons.prems have "list_all hashable (requested_options v)" by simp
  from parse_filter_total [OF this, of self key acc] obtain acc1 where
    "parse_filter self (key, v) acc = Inr acc1" by blast
  moreover from Cons.prems have "\<forall>(key, v) \<in> set rest. list_all hashable (requested_options v)"
    by simp
  from Cons.IH [OF this, of acc1] obtain acc2 where "parse_filters self rest acc1 = Inr acc2"
    by blast
  ultimately show ?case using e by simp
qed

section \<open>Unresolved options and unknown keys\<close>

text \<open>
  C6. Whenever \<open>get_filters\<close> returns, every value of the returned parameter set is
  the fixed \<open>searchNearby = 1\<close> or is what one of the three behaviours writes for a
  requested key that is in the tables; for a list filter that is the list of the codes
  of the requested options that resolve, so nothing stands for an option that does not
  resolve. Every requested key that is in none of the three tables leaves a warning in
  the log, and removing those keys from the request changes neither the returned
  parameter set nor whether the call fails. The call returns whenever every requested
  option is hashable.
\<close>

theorem get_filters_drops_unresolved:
  "(get_filters self fs = Inr (params, log) \<longrightarrow>
      (\<forall>uk x. params uk = Some x \<longrightarrow>
          (uk = ''searchNearby'' \<and> x = PInt 1)
          \<or> (\<exists>key v f. (key, v) \<in> set (filter_items fs)
                \<and> lookup_filter (extra_filters self) (list_filters self) key = Inr f
                \<and> url_key f = uk \<and> emits f v x))
      \<and> (\<forall>key v. (key, v) \<in> set (filter_items fs)
             \<and> lookup_filter (extra_filters self) (list_filters self) key = Inl KeyError
           \<longrightarrow> InvalidFilter key \<in> set log))
   \<and> map_sum id fst (get_filters self fs)
       = map_sum id fst
           (get_filters self
              (Some (filter (\<lambda>(key, v). lookup_filter (extra_filters self) (list_filters self) key
                                         \<noteq> Inl KeyError)
                       (filter_items fs))))
   \<and> ((\<forall>(key, v) \<in> set (filter_items fs). list_all hashable (requested_options v))
        \<longrightarrow> (\<exists>params' log'. get_filters self fs = Inr (params', log')))"
proof (intro conjI impI allI)
  assume "\<forall>(key, v) \<in> set (filter_items fs). list_all hashable (requested_options v)"
  from parse_filters_total [OF this, of self "([''searchNearby'' \<mapsto> PInt 1], [])"]
  show "\<exists>params' log'. get_filters self fs = Inr (params', log')"
    by (auto simp add: get_filters_def)
next
  fix uk x
  assume g: "get_filters self fs = Inr (params, log)" and x: "params uk = Some x"
  from parse_filters_values [OF g [unfolded get_filters_def] x]
  show "(uk = ''searchNearby'' \<and> x = PInt 1)
          \<or> (\<exists>key v f. (key, v) \<in> set (filter_items fs)
                \<and> lookup_filter (extra_filters self) (list_filters self) key = Inr f
                \<and> url_key f = uk \<and> emits f v x)"
    by (auto split: if_splits)
next
  fix key v
  assume g: "get_filters self fs = Inr (params, log)"
    and k: "(key, v) \<in> set (filter_items fs)
             \<and> lookup_filter (extra_filters self) (list_filters self) key = Inl KeyError"
  from parse_filters_warns [OF g [unfolded get_filters_def]] k
  show "InvalidFilter key \<in> set log" by blast
next
  show "map_sum id fst (get_filters self fs)
       = map_sum id fst
           (get_filters self
              (Some (filter (\<lambda>(key, v). lookup_filter (extra_filters self) (list_filters self) key
                                         \<noteq> Inl KeyError)
                       (filter_items fs))))"
    unfolding get_filters_def
    using parse_filters_drop_unknown [of self "filter_items fs"]
    by (simp add: filter_items_def)
qed

theorem get_filters_drops_unresolved_witness:
  "\<exists>params log.
      get_filters for_sale
        (Some [(''query'', PStr ''apple''), (''condition'', PList [PStr ''new'', PStr ''mint'']),
               (''bogus'', PInt 3), (''has_image'', PBool False)]) = Inr (params, log)
      \<and> params ''query'' = Some (PStr ''apple'')
      \<and> params ''condition'' = Some (PList [PStr ''10''])
      \<and> params ''hasPic'' = None
      \<and> InvalidFilter ''bogus'' \<in> set log
      \<and> map_sum id fst
           (get_filters for_sale
              (Some [(''query'', PStr ''apple''), (''condition'', PList [PStr ''new'', PStr ''mint'']),
                     (''has_image'', PBool False)])) = Inr params"
proof -
  let ?fs = "[(''query'', PStr ''apple''), (''condition'', PList [PStr ''new'', PStr ''mint'']),
               (''bogus'', PInt 3), (''has_image'', PBool False)]"
  let ?params = "[''searchNearby'' \<mapsto> PInt 1, ''query'' \<mapsto> PStr ''apple'',
                   ''condition'' \<mapsto> PList [PStr ''10'']]"
  let ?log = "[InvalidOption (PStr ''mint'') ''condition'', InvalidFilter ''bogus'']"
  have g: "get_filters for_sale (Some ?fs) = Inr (?params, ?log)"
    by (simp add: filters_defs)
  have known: "filter (\<lambda>(key, v). lookup_filter (extra_filters for_sale) (list_filters for_sale) key
                                         \<noteq> Inl KeyError) (filter_items (Some ?fs))
                 = [(''query'', PStr ''apple''), (''condition'', PList [PStr ''new'', PStr ''mint'']),
                     (''has_image'', PBool False)]"
    by (simp add: filters_defs)
  have bogus: "(''bogus'', PInt 3) \<in> set (filter_items (Some ?fs))
             \<and> lookup_filter (extra_filters for_sale) (list_filters for_sale) ''bogus'' = Inl KeyError"
    by (simp add: filters_defs)
  from get_filters_drops_unresolved [of for_sale "Some ?fs" ?params ?log] g bogus
  have "InvalidFilter ''bogus'' \<in> set ?log"
    and "map_sum id fst (get_filters for_sale (Some ?fs))
       = map_sum id fst
           (get_filters for_sale
              (Some (filter (\<lambda>(key, v). lookup_filter (extra_filters for_sale) (list_filters for_sale) key
                                         \<noteq> Inl KeyError)
                       (filter_items (Some ?fs)))))"
    by blast+
  then show ?thesis
    unfolding known g by (intro exI [of _ ?params] exI [of _ ?log]) simp
qed

section \<open>A list filter none of whose options resolves\<close>

text \<open>
  C10, as the code has it. When a requested key resolves to a list filter and none of
  the requested options is among the filter's options, the loop body maps the filter's
  provider key to the empty list (and logs a warning for each option); the parameter set
  that \<open>get_filters\<close> returns maps the provider key to the empty list provided no key
  requested after it resolves to a filter with the same provider key.
\<close>

theorem unresolved_list_filter_gives_empty_list:
  assumes "lookup_filter (extra_filters self) (list_filters self) key = Inr f"
    and "fvalue f = Options valid"
    and "\<forall>opt \<in> set (requested_options v). lookup_option valid opt = Inl KeyError"
  shows "parse_filter self (key, v) (p, l)
           = Inr (p(url_key f \<mapsto> PList []),
                  l @ map (\<lambda>opt. InvalidOption opt key) (requested_options v))
         \<and> (get_filters self (Some (before @ (key, v) # after)) = Inr (params, log)
              \<and> (\<forall>(k, v') \<in> set after. \<forall>f'.
                    lookup_filter (extra_filters self) (list_filters self) k = Inr f'
                      \<longrightarrow> url_key f' \<noteq> url_key f)
            \<longrightarrow> params (url_key f) = Some (PList []))"
proof (intro conjI impI)
  show "parse_filter self (key, v) (p, l)
           = Inr (p(url_key f \<mapsto> PList []),
                  l @ map (\<lambda>opt. InvalidOption opt key) (requested_options v))"
    by (rule parse_filter_unresolved [OF assms])
next
  assume a: "get_filters self (Some (before @ (key, v) # after)) = Inr (params, log)
              \<and> (\<forall>(k, v') \<in> set after. \<forall>f'.
                    lookup_filter (extra_filters self) (list_filters self) k = Inr f'
                      \<longrightarrow> url_key f' \<noteq> url_key f)"
  then obtain p1 l1 where
    b: "parse_filters self before ([''searchNearby'' \<mapsto> PInt 1], []) = Inr (p1, l1)"
    and r: "parse_filters self ((key, v) # after) (p1, l1) = Inr (params, log)"
    by (auto simp add: get_filters_def filter_items_def parse_filters_append split: sum.splits)
  from r parse_filter_unresolved [OF assms, of p1 l1]
  have "parse_filters self after
          (p1(url_key f \<mapsto> PList []),
           l1 @ map (\<lambda>opt. InvalidOption opt key) (requested_options v)) = Inr (params, log)"
    by simp
  from parse_filters_untouched [OF this, of "url_key f"] a
  show "params (url_key f) = Some (PList [])"
    by simp
qed

theorem unresolved_list_filter_gives_empty_list_witness:
  "lookup_filter (extra_filters for_sale) (list_filters for_sale) ''condition''
     = Inr \<lparr>url_key = ''condition'',
            fvalue = Options [(''new'', PStr ''10''), (''like new'', PStr ''20'')], attr = None\<rparr>
   \<and> (\<exists>params log.
         get_filters for_sale
           (Some [(''has_image'', PBool True), (''condition'', PList [PStr ''mint'', PStr ''used'']),
                  (''query'', PStr ''apple'')]) = Inr (params, log)
         \<and> params ''condition'' = Some (PList []))"
proof -
  let ?f = "\<lparr>url_key = ''condition'',
            fvalue = Options [(''new'', PStr ''10''), (''like new'', PStr ''20'')], attr = None\<rparr>"
  let ?params = "[''searchNearby'' \<mapsto> PInt 1, ''hasPic'' \<mapsto> PInt 1, ''condition'' \<mapsto> PList [],
                   ''query'' \<mapsto> PStr ''apple'']"
  let ?log = "[InvalidOption (PStr ''mint'') ''condition'', InvalidOption (PStr ''used'') ''condition'']"
  have lk: "lookup_filter (extra_filters for_sale) (list_filters for_sale) ''condition'' = Inr ?f"
    by (simp add: filters_defs)
  have fv: "fvalue ?f = Options [(''new'', PStr ''10''), (''like new'', PStr ''20'')]"
    by simp
  have un: "\<forall>opt \<in> set (requested_options (PList [PStr ''mint'', PStr ''used''])).
              lookup_option [(''new'', PStr ''10''), (''like new'', PStr ''20'')] opt = Inl KeyError"
    by (simp add: filters_defs)
  have g: "get_filters for_sale
           (Some ([(''has_image'', PBool True)] @ (''condition'', PList [PStr ''mint'', PStr ''used''])
                  # [(''query'', PStr ''apple'')])) = Inr (?params, ?log)"
    by (simp add: filters_defs)
  have later: "\<forall>(k, v') \<in> set [(''query'', PStr ''apple'')]. \<forall>f'.
                    lookup_filter (extra_filters for_sale) (list_filters for_sale) k = Inr f'
                      \<longrightarrow> url_key f' \<noteq> url_key ?f"
    by (auto simp add: filters_defs)
  from unresolved_list_filter_gives_empty_list [OF lk fv un,
         of Map.empty "[]" "[(''has_image'', PBool True)]" "[(''query'', PStr ''apple'')]" ?params ?log]
       g later
  have "?params (url_key ?f) = Some (PList [])" by blast
  with lk g show ?thesis by auto
qed

text \<open>C10 as the claim has it fails: \<open>zip_code\<close>, requested after a list filter with the
  provider key \<open>postal\<close> none of whose options resolves, writes the same provider key,
  and the returned set maps \<open>postal\<close> to the zip code, not to the empty list.\<close>

theorem later_filter_overwrites_empty_list:
  "lookup_filter (extra_filters with_postal) (list_filters with_postal) ''postal''
     = Inr \<lparr>url_key = ''postal'', fvalue = Options [(''a'', PStr ''1'')], attr = None\<rparr>
   \<and> lookup_option [(''a'', PStr ''1'')] (PStr ''zz'') = Inl KeyError
   \<and> (\<exists>params log.
         get_filters with_postal
           (Some [(''postal'', PList [PStr ''zz'']), (''zip_code'', PStr ''11249'')])
           = Inr (params, log)
         \<and> params ''postal'' = Some (PStr ''11249''))"
  by (simp add: filters_defs)

section \<open>The loop over the rows of a page\<close>

lemma nat_diff_step: "\<not> limit \<le> (ry::int) \<Longrightarrow> nat (limit - ry) = Suc (nat (limit - (ry + 1)))"
  by linarith

lemma rows_loop_counts:
  "rows_loop proc limit rows ry tsf = (items, reqs, err, ry', tsf') \<Longrightarrow>
     ry' = ry + int (length items) \<and> tsf' = tsf + int (length items)
     \<and> int (length items) \<le> max 0 (limit - ry)
     \<and> (err = None \<longrightarrow> length items = min (length rows) (nat (limit - ry)))"
proof (induction rows arbitrary: ry tsf items reqs err ry' tsf')
  case Nil
  then show ?case by simp
next
  case (Cons row rest)
  show ?case
  proof (cases "ry \<ge> limit")
    case True
    with Cons.prems show ?thesis by simp
  next
    case False
    obtain rq v where p: "proc row = (rq, v)" by (cases "proc row")
    show ?thesis
    proof (cases v)
      case (Inl e)
      with Cons.prems False p show ?thesis by auto
    next
      case (Inr item)
      obtain items1 reqs1 err1 ry1 tsf1 where
        r: "rows_loop proc limit rest (ry + 1) (tsf + 1) = (items1, reqs1, err1, ry1, tsf1)"
        by (metis prod_cases5)
      from Cons.prems False p Inr r have eq: "items = item # items1" "err = err1" "ry' = ry1" "tsf' = tsf1"
        by simp_all
      from Cons.IH [OF r] False eq show ?thesis by (auto simp add: nat_diff_step)
    qed
  qed
qed

lemma rows_loop_items:
  "rows_loop proc limit rows ry tsf = (items, reqs, err, ry', tsf') \<Longrightarrow>
     length items \<le> length rows \<and> map Inr items = map (\<lambda>row. snd (proc row)) (take (length items) rows)"
proof (induction rows arbitrary: ry tsf items reqs err ry' tsf')
  case Nil
  then show ?case by simp
next
  case (Cons row rest)
  show ?case
  proof (cases "ry \<ge> limit")
    case True
    with Cons.prems show ?thesis by simp
  next
    case False
    obtain rq v where p: "proc row = (rq, v)" by (cases "proc row")
    show ?thesis
    proof (cases v)
      case (Inl e)
      with Cons.prems False p show ?thesis by simp
    next
      case (Inr item)
      obtain items1 reqs1 err1 ry1 tsf1 where
        r: "rows_loop proc limit rest (ry + 1) (tsf + 1) = (items1, reqs1, err1, ry1, tsf1)"
        by (metis prod_cases5)
      from Cons.prems False p Inr r have eq: "items = item # items1"
        by simp
      from Cons.IH [OF r] eq p Inr show ?thesis by simp
    qed
  qed
qed

lemma rows_loop_raised:
  "rows_loop proc limit rows ry tsf = (items, reqs, Some e, ry', tsf') \<Longrightarrow>
     \<exists>row \<in> set rows. snd (proc row) = Inl e"
proof (induction rows arbitrary: ry tsf items reqs ry' tsf')
  case Nil
  then show ?case by simp
next
  case (Cons row rest)
  show ?case
  proof (cases "ry \<ge> limit")
    case True
    with Cons.prems show ?thesis by simp
  next
    case False
    obtain rq v where p: "proc row = (rq, v)" by (cases "proc row")
    show ?thesis
    proof (cases v)
      case (Inl e')
      with Cons.prems False p show ?thesis by simp
    next
      case (Inr item)
      obtain items1 reqs1 err1 ry1 tsf1 where
        r: "rows_loop proc limit rest (ry + 1) (tsf + 1) = (items1, reqs1, err1, ry1, tsf1)"
        by (metis prod_cases5)
      from Cons.prems False p Inr r have eq: "err1 = Some e"
        by simp
      from Cons.IH [OF r [unfolded eq]] show ?thesis by simp
    qed
  qed
qed

lemma rows_loop_no_raise:
  assumes "rows_loop proc limit rows ry tsf = (items, reqs, err, ry', tsf')"
    and "\<forall>row \<in> set rows. \<forall>e. snd (proc row) \<noteq> Inl e"
  shows "err = None"
proof (cases err)
  case None
  then show ?thesis .
next
  case (Some e)
  from rows_loop_raised [OF assms(1) [unfolded Some]] assms(2) show ?thesis by blast
qed


section \<open>The loop over the pages\<close>

lemma parse_attrs_filters: "parse_attrs (self\<lparr>filters := f\<rparr>) = parse_attrs self"
  by (rule ext) (simp add: parse_attrs_def split: sum.splits)

lemma include_details_filters:
  "include_details E (self\<lparr>filters := f\<rparr>) r soup = include_details E self r soup"
  by (simp only: include_details_def parse_attrs_filters)

lemma url_filters: "url (self\<lparr>filters := f\<rparr>) = url self"
  by simp

lemma process_row_filters:
  "process_row E (self\<lparr>filters := f\<rparr>) row g d = process_row E self row g d"
  by (simp only: process_row_def include_details_filters url_filters)

lemma pages_loop_pages:
  assumes "i < length (page_yields (pages_loop E self g d answers start tsf ry tc))"
  shows "\<exists>soup rows lim. answers ! i = Some soup \<and> page_limit E soup = Inr (rows, lim)
     \<and> int (length (page_yields (pages_loop E self g d answers start tsf ry tc) ! i))
          \<le> max 0 (lim - (ry + int (length (concat (take i
                (page_yields (pages_loop E self g d answers start tsf ry tc)))))))
     \<and> (raised (pages_loop E self g d answers start tsf ry tc) = None \<longrightarrow>
          length (page_yields (pages_loop E self g d answers start tsf ry tc) ! i)
            = min (length (listing_rows rows))
                (nat (lim - (ry + int (length (concat (take i
                  (page_yields (pages_loop E self g d answers start tsf ry tc)))))))))
     \<and> ((\<forall>row \<in> set (listing_rows rows). \<forall>e. snd (process_row E self row g d) \<noteq> Inl e) \<longrightarrow>
          length (page_yields (pages_loop E self g d answers start tsf ry tc) ! i)
            = min (length (listing_rows rows))
                (nat (lim - (ry + int (length (concat (take i
                  (page_yields (pages_loop E self g d answers start tsf ry tc)))))))))
     \<and> length (page_yields (pages_loop E self g d answers start tsf ry tc) ! i)
          \<le> length (listing_rows rows)
     \<and> map Inr (page_yields (pages_loop E self g d answers start tsf ry tc) ! i)
          = map (\<lambda>row. snd (process_row E self row g d))
              (take (length (page_yields (pages_loop E self g d answers start tsf ry tc) ! i))
                 (listing_rows rows))"
  using assms
proof (induction answers arbitrary: self start tsf ry tc i)
  case Nil
  then show ?case by simp
next
  case (Cons a answers)
  show ?case
  proof (cases a)
    case None
    with Cons.prems show ?thesis by simp
  next
    case (Some soup)
    let ?self1 = "self\<lparr>filters := (filters self)(''s'' \<mapsto> PInt start)\<rparr>"
    let ?out = "pages_loop E self g d (a # answers) start tsf ry tc"
    obtain rows lim where pl: "page_limit E soup = Inr (rows, lim)"
      using Cons.prems Some by (auto split: sum.splits if_splits)
    obtain tc1 where ac: "(if tc = None \<or> tc = Some 0 then get_results_approx_count E soup else Inr tc) = Inr tc1"
      using Cons.prems Some by (auto split: sum.splits if_splits)
    obtain items reqs err ry1 tsf1 where
      rl: "rows_loop (\<lambda>row. process_row E ?self1 row g d) lim (listing_rows rows) ry tsf
            = (items, reqs, err, ry1, tsf1)"
      by (metis prod_cases5)
    note cnt = rows_loop_counts [OF rl]
    note itm = rows_loop_items [OF rl, unfolded process_row_filters]
    have exact: "(\<forall>row \<in> set (listing_rows rows). \<forall>e. snd (process_row E self row g d) \<noteq> Inl e)
                   \<longrightarrow> length items = min (length (listing_rows rows)) (nat (lim - ry))"
      using rows_loop_no_raise [OF rl] cnt by (simp add: process_row_filters)
    show ?thesis
    proof (cases "err \<noteq> None \<or> tsf1 - start < RESULTS_PER_REQUEST")
      case True
      then have out: "page_yields ?out = [items]" "raised ?out = err"
        using Some pl ac rl by (simp_all add: listing_rows_def)
      with Cons.prems have i0: "i = 0" by simp
      show ?thesis
        using out i0 Some pl cnt itm exact by simp
    next
      case False
      let ?rest = "pages_loop E ?self1 g d answers tsf1 tsf1 ry1 tc1"
      from False have out: "page_yields ?out = items # page_yields ?rest" "raised ?out = raised ?rest"
        and en: "err = None"
        using Some pl ac rl by (simp_all add: listing_rows_def Let_def)
      show ?thesis
      proof (cases i)
        case 0
        then show ?thesis
          using out en Some pl cnt itm exact by simp
      next
        case (Suc j)
        with Cons.prems out have j: "j < length (page_yields ?rest)" by simp
        have ry1: "ry1 + int (length (concat (take j (page_yields ?rest))))
                 = ry + int (length (concat (take i (page_yields ?out))))"
          using cnt out Suc by simp
        have nth: "(a # answers) ! i = answers ! j" "page_yields ?out ! i = page_yields ?rest ! j"
          using out Suc by simp_all
        show ?thesis
          using Cons.IH [OF j]
          unfolding nth out(2) ry1 [symmetric] process_row_filters
          by blast
      qed
    qed
  qed
qed

section \<open>The exceptions that can leave get_results\<close>

lemma sort_by_message_neq:
  "sort_by_message m \<noteq> ''invalid literal for int() with base 10''"
  "sort_by_message m \<noteq> ''could not convert string to float''"
  "sort_by_message m \<noteq> ''Invalid IPv6 URL''"
  by (simp_all add: sort_by_message_def)

lemma geotag_result_error:
  "geotag_result E r soup = Inl e \<Longrightarrow> e = KeyError \<or> e = ValueError ''could not convert string to float''"
  by (auto simp add: geotag_result_def split: option.splits if_splits)

lemma list_fields_error: "list_fields t a r = Inl e \<Longrightarrow> e = AttributeError"
  by (induction t a r rule: list_fields.induct) (auto split: filter_value.splits option.splits)

lemma attr_items_error: "attr_items r = Inl e \<Longrightarrow> e = KeyError \<or> e = AttributeError \<or> e = TypeError"
  by (auto simp add: attr_items_def split: option.splits field.splits)

lemma parse_attrs_error:
  "parse_attrs self r = Inl e \<Longrightarrow> e = KeyError \<or> e = AttributeError \<or> e = TypeError"
  by (auto simp add: parse_attrs_def split: sum.splits dest: attr_items_error list_fields_error)

lemma reveal_contact_error: "reveal_contact E r = Inl e \<Longrightarrow> e = KeyError \<or> e = BrowserError"
  by (auto simp add: reveal_contact_def split: option.splits field.splits if_splits sum.splits)

lemma created_loop_error: "created_loop ps r = Inl e \<Longrightarrow> e = KeyError"
  by (induction ps r rule: created_loop.induct) (auto split: option.splits if_splits)

lemma add_created_error: "add_created r soup = Inl e \<Longrightarrow> e = KeyError \<or> e = AttributeError"
  by (auto simp add: add_created_def split: option.splits dest: created_loop_error)

lemma include_details_error:
  "include_details E self r soup = Inl e \<Longrightarrow>
     e = KeyError \<or> e = AttributeError \<or> e = TypeError \<or> e = BrowserError"
  by (auto simp add: include_details_def split: option.splits sum.splits if_splits
        dest: reveal_contact_error add_created_error parse_attrs_error)

lemma process_row_error:
  "snd (process_row E self row g d) = Inl e \<Longrightarrow> e \<noteq> ValueError (sort_by_message m)"
  using sort_by_message_neq [of m]
  by (auto simp add: process_row_def Let_def
        split: option.splits sum.splits if_splits
        dest: geotag_result_error include_details_error)

lemma approx_count_error:
  "get_results_approx_count E soup = Inl e \<Longrightarrow> e = ValueError ''invalid literal for int() with base 10''"
  by (auto simp add: get_results_approx_count_def split: option.splits)

lemma page_limit_error:
  "page_limit E soup = Inl e \<Longrightarrow> e = AttributeError \<or> e = ValueError ''invalid literal for int() with base 10''"
  by (auto simp add: page_limit_def split: option.splits)

lemma pages_loop_error:
  "raised (pages_loop E self g d answers start tsf ry tc) = Some e \<Longrightarrow>
     e \<noteq> ValueError (sort_by_message m)"
proof (induction answers arbitrary: self start tsf ry tc)
  case Nil
  then show ?case by simp
next
  case (Cons a answers)
  show ?case
  proof (cases a)
    case None
    with Cons.prems show ?thesis by simp
  next
    case (Some soup)
    let ?self1 = "self\<lparr>filters := (filters self)(''s'' \<mapsto> PInt start)\<rparr>"
    show ?thesis
    proof (cases "if tc = None \<or> tc = Some 0 then get_results_approx_count E soup else Inr tc")
      case (Inl e1)
      then have "e1 = ValueError ''invalid literal for int() with base 10''"
        by (auto split: if_splits dest: approx_count_error)
      with Cons.prems Some Inl show ?thesis using sort_by_message_neq(1) [of m] by auto
    next
      case (Inr tc1)
      show ?thesis
      proof (cases "page_limit E soup")
        case (Inl e1)
        with Cons.prems Some Inr show ?thesis
          using sort_by_message_neq(1) [of m] by (auto dest: page_limit_error)
      next
        case pl: (Inr p)
        obtain rows lim where p: "p = (rows, lim)" by (cases p)
        obtain items reqs err ry1 tsf1 where
          rl: "rows_loop (\<lambda>row. process_row E ?self1 row g d) lim (listing_rows rows) ry tsf
                = (items, reqs, err, ry1, tsf1)"
          by (metis prod_cases5)
        show ?thesis
        proof (cases "err \<noteq> None \<or> tsf1 - start < RESULTS_PER_REQUEST")
          case True
          with Cons.prems Some Inr pl p rl have "err = Some e"
            by (simp add: listing_rows_def)
          from rows_loop_raised [OF rl [unfolded this]] show ?thesis
            by (auto dest: process_row_error)
        next
          case False
          with Cons.prems Some Inr pl p rl
          have "raised (pages_loop E ?self1 g d answers tsf1 tsf1 ry1 tc1) = Some e"
            by (simp add: listing_rows_def Let_def)
          from Cons.IH [OF this] show ?thesis .
        qed
      qed
    qed
  qed
qed

lemma pages_loop_requested:
  "requested (pages_loop E self g d answers start tsf ry tc) \<noteq> []"
  by (cases "(E, self, g, d, answers, start, tsf, ry, tc)" rule: pages_loop.cases)
     (auto simp add: Let_def split: sum.splits prod.splits)

lemma get_results_cases:
  "page_yields (get_results E self limit start sort_by g d) = []
   \<or> (\<exists>f. get_results E self limit start sort_by g d
            = pages_loop E (self\<lparr>filters := f\<rparr>) g d (search_pages E) start start 0 (Some 0))"
proof (cases "\<exists>k. sort_by = Some k \<and> k \<noteq> [] \<and> map_of sort_by_options k = None")
  case True
  then show ?thesis by (auto simp add: get_results_def)
next
  case False
  have "get_results E self limit start sort_by g d
          = pages_loop E
              (self\<lparr>filters :=
                 (case sort_by of
                    None \<Rightarrow> filters self
                  | Some k \<Rightarrow>
                      (if k = [] then filters self
                       else (case map_of sort_by_options k of
                               None \<Rightarrow> filters self
                             | Some v \<Rightarrow> (filters self)(''sort'' \<mapsto> PStr v))))\<rparr>)
              g d (search_pages E) start start 0 (Some 0)"
    using False by (auto simp add: get_results_def split: option.splits)
  then show ?thesis by blast
qed

section \<open>How many results a page yields\<close>









section \<open>Spacer rows\<close>

text \<open>
  C2, as the code has it. For a row that holds a spacer (a \<open>div\<close> with class
  \<open>gallery-card spacer\<close>) \<open>process_row\<close> returns \<open>None\<close> and sends no request. Every entry
  that \<open>get_results\<close> yields is the value of \<open>process_row\<close> at the row in the same position
  of the page being read: for a spacer row the entry is \<open>None\<close>, never a record, and it
  is yielded like any other.
\<close>

theorem spacer_rows_yield_none:
  "(bs_find row (tag_class ''div'' ''gallery-card spacer'') \<noteq> None
      \<longrightarrow> process_row E self row g d = ([], Inr None))
   \<and> (i < length (page_yields (get_results E self limit start sort_by g d))
        \<and> j < length (page_yields (get_results E self limit start sort_by g d) ! i)
      \<longrightarrow> (\<exists>soup rows lim. search_pages E ! i = Some soup \<and> page_limit E soup = Inr (rows, lim)
             \<and> j < length (listing_rows rows)
             \<and> snd (process_row E self (listing_rows rows ! j) g d)
                 = Inr (page_yields (get_results E self limit start sort_by g d) ! i ! j)
             \<and> (bs_find (listing_rows rows ! j) (tag_class ''div'' ''gallery-card spacer'') \<noteq> None
                  \<longrightarrow> page_yields (get_results E self limit start sort_by g d) ! i ! j = None)))"
proof (intro conjI impI)
  assume "bs_find row (tag_class ''div'' ''gallery-card spacer'') \<noteq> None"
  then show "process_row E self row g d = ([], Inr None)"
    by (simp add: process_row_def)
next
  let ?out = "get_results E self limit start sort_by g d"
  assume ij: "i < length (page_yields ?out) \<and> j < length (page_yields ?out ! i)"
  with get_results_cases [of E self limit start sort_by g d]
  obtain f where f: "?out
            = pages_loop E (self\<lparr>filters := f\<rparr>) g d (search_pages E) start start 0 (Some 0)"
    by auto
  from ij have i: "i < length (page_yields ?out)" and j: "j < length (page_yields ?out ! i)"
    by simp_all
  from pages_loop_pages [OF i [unfolded f]] obtain soup rows lim where
    s: "search_pages E ! i = Some soup" "page_limit E soup = Inr (rows, lim)"
    and le: "length (page_yields ?out ! i) \<le> length (listing_rows rows)"
    and mp: "map Inr (page_yields ?out ! i)
          = map (\<lambda>row. snd (process_row E self row g d))
              (take (length (page_yields ?out ! i)) (listing_rows rows))"
    unfolding f process_row_filters by auto
  from j le have jl: "j < length (listing_rows rows)" by simp
  have "map Inr (page_yields ?out ! i) ! j
          = map (\<lambda>row. snd (process_row E self row g d))
              (take (length (page_yields ?out ! i)) (listing_rows rows)) ! j"
    by (simp only: mp)
  with j jl le have v: "snd (process_row E self (listing_rows rows ! j) g d)
                 = Inr (page_yields ?out ! i ! j)"
    by simp
  have "bs_find (listing_rows rows ! j) (tag_class ''div'' ''gallery-card spacer'') \<noteq> None
          \<longrightarrow> page_yields ?out ! i ! j = None"
    using v by (auto simp add: process_row_def)
  with s jl v show "\<exists>soup rows lim. search_pages E ! i = Some soup \<and> page_limit E soup = Inr (rows, lim)
             \<and> j < length (listing_rows rows)
             \<and> snd (process_row E self (listing_rows rows ! j) g d)
                 = Inr (page_yields ?out ! i ! j)
             \<and> (bs_find (listing_rows rows ! j) (tag_class ''div'' ''gallery-card spacer'') \<noteq> None
                  \<longrightarrow> page_yields ?out ! i ! j = None)"
    by blast
qed

theorem spacer_rows_yield_none_witness:
  "bs_find spacer_row (tag_class ''div'' ''gallery-card spacer'') \<noteq> None
   \<and> process_row example_env example_self spacer_row True True = ([], Inr None)
   \<and> page_yields (get_results page_spacer_first example_self None 0 None False False)
       = [[None, Some listing_result]]
   \<and> (\<exists>soup rows lim. search_pages page_spacer_first ! 0 = Some soup
          \<and> page_limit page_spacer_first soup = Inr (rows, lim)
          \<and> listing_rows rows ! 0 = spacer_row
          \<and> page_yields (get_results page_spacer_first example_self None 0 None False False) ! 0 ! 0
              = None)"
proof -
  have sp: "bs_find spacer_row (tag_class ''div'' ''gallery-card spacer'') \<noteq> None"
    by (simp add: example_defs soup_defs)
  have py: "page_yields (get_results page_spacer_first example_self None 0 None False False)
       = [[None, Some listing_result]]"
    by (simp add: page_spacer_first_def results_defs example_defs soup_defs)
  have pl: "page_limit page_spacer_first (results_page ''2'' [spacer_row, listing_row])
              = Inr (Tag ''ol'' None [] [Tag ''div'' (Some [''result-count'']) [] [NavigableString ''2 results''],
                      spacer_row, listing_row], 2)"
    by (simp add: page_spacer_first_def results_defs example_defs soup_defs)
  have lr: "listing_rows (Tag ''ol'' None [] [Tag ''div'' (Some [''result-count'']) [] [NavigableString ''2 results''],
                      spacer_row, listing_row]) ! 0 = spacer_row"
    by (simp add: listing_rows_def example_defs soup_defs)
  have sg: "search_pages page_spacer_first ! 0 = Some (results_page ''2'' [spacer_row, listing_row])"
    by (simp add: page_spacer_first_def)
  from spacer_rows_yield_none
         [where row = spacer_row and E = example_env and self = example_self and g = True and d = True]
  have a: "process_row example_env example_self spacer_row True True = ([], Inr None)"
    using sp by blast
  from spacer_rows_yield_none
         [where E = page_spacer_first and self = example_self and g = False and d = False
            and i = 0 and j = 0 and limit = None and start = 0 and sort_by = None]
  show ?thesis
    using sp py pl lr sg a by auto
qed

text \<open>C2 as the claim has it fails: a spacer row between two listings is not skipped,
  \<open>get_results\<close> yields three entries, the second of them \<open>None\<close>.\<close>

theorem spacer_row_is_yielded_as_none:
  "yielded (get_results page_with_spacer example_self None 0 None False False)
     = [Some listing_result, None, Some listing_result]"
  by (simp add: yielded_def page_with_spacer_def results_defs example_defs soup_defs)

section \<open>The sort key\<close>

text \<open>
  C5, as the code has it. For every sort key that is not empty and is none of
  \<open>newest\<close>, \<open>price_asc\<close>, \<open>price_desc\<close>, iterating \<open>get_results\<close> logs and raises the
  ValueError with the message of line 159, having yielded nothing and sent no request.
  With one of the three keys, with no sort key and with the empty sort key, that error
  is never raised and the first request is sent.
\<close>

theorem get_results_sort_by:
  "(k \<noteq> [] \<and> k \<noteq> ''newest'' \<and> k \<noteq> ''price_asc'' \<and> k \<noteq> ''price_desc'' \<longrightarrow>
      get_results E self limit start (Some k) g d
        = \<lparr>page_yields = [], requested = [], raised = Some (ValueError (sort_by_message k)),
           logged = [ErrorMessage (sort_by_message k)], filters_after = filters self\<rparr>)
   \<and> (sort_by = None \<or> sort_by = Some [] \<or> sort_by = Some ''newest''
        \<or> sort_by = Some ''price_asc'' \<or> sort_by = Some ''price_desc'' \<longrightarrow>
      (\<forall>m. raised (get_results E self limit start sort_by g d)
              \<noteq> Some (ValueError (sort_by_message m)))
      \<and> requested (get_results E self limit start sort_by g d) \<noteq> [])"
proof (intro conjI impI)
  assume "k \<noteq> [] \<and> k \<noteq> ''newest'' \<and> k \<noteq> ''price_asc'' \<and> k \<noteq> ''price_desc''"
  then show "get_results E self limit start (Some k) g d
        = \<lparr>page_yields = [], requested = [], raised = Some (ValueError (sort_by_message k)),
           logged = [ErrorMessage (sort_by_message k)], filters_after = filters self\<rparr>"
    by (simp add: get_results_def sort_by_options_def)
next
  assume v: "sort_by = None \<or> sort_by = Some [] \<or> sort_by = Some ''newest''
        \<or> sort_by = Some ''price_asc'' \<or> sort_by = Some ''price_desc''"
  then obtain self1 where
    f: "get_results E self limit start sort_by g d
            = pages_loop E self1 g d (search_pages E) start start 0 (Some 0)"
    by (auto simp add: get_results_def sort_by_options_def)
  show "\<forall>m. raised (get_results E self limit start sort_by g d)
              \<noteq> Some (ValueError (sort_by_message m))"
    unfolding f using pages_loop_error by blast
  show "requested (get_results E self limit start sort_by g d) \<noteq> []"
    unfolding f by (rule pages_loop_requested)
qed

theorem get_results_sort_by_witness:
  "get_results example_env example_self None 0 (Some ''oldest'') False False
     = \<lparr>page_yields = [], requested = [], raised = Some (ValueError (sort_by_message ''oldest'')),
        logged = [ErrorMessage (sort_by_message ''oldest'')], filters_after = filters example_self\<rparr>
   \<and> (\<forall>m. raised (get_results example_env example_self None 0 (Some ''newest'') False False)
              \<noteq> Some (ValueError (sort_by_message m)))
   \<and> requested (get_results example_env example_self None 0 (Some ''newest'') False False) \<noteq> []"
  using get_results_sort_by [of "''oldest''" example_env example_self None 0 False False "Some ''newest''"]
  by simp

text \<open>C5 as the claim has it fails: the empty string is none of the valid options, and
  with it nothing is raised before the first request (line 155 tests \<open>if sort_by\<close>).\<close>

theorem empty_sort_by_is_not_rejected:
  "map_of sort_by_options [] = None
   \<and> raised (get_results example_env example_self None 0 (Some []) False False) = None
   \<and> requested (get_results example_env example_self None 0 (Some []) False False)
       = [SearchRequest ''https://newyork.craigslist.org/search/sss'' 0]"
  by (simp add: results_defs example_defs)

section \<open>include_details on a page without a body\<close>

text \<open>
  C3. When the detail page has no \<open>section\<close> with id \<open>postingbody\<close>, \<open>include_details\<close>
  returns normally, the record's \<open>deleted\<close> field is \<open>True\<close>, and every other key of the
  record (present or absent) is as it was: no \<open>body\<close>, \<open>images\<close>, \<open>attrs\<close>, \<open>created\<close>,
  \<open>email\<close>, \<open>phone\<close> or \<open>address\<close> is added or changed.
\<close>

theorem include_details_without_body:
  assumes "bs_find soup (tag_id ''section'' ''postingbody'') = None"
  shows "\<exists>r. include_details E self result soup = Inr r
             \<and> r ''deleted'' = Some (FBool True)
             \<and> (\<forall>k. k \<noteq> ''deleted'' \<longrightarrow> r k = result k)"
  using assms by (simp add: include_details_def)

theorem include_details_without_body_witness:
  "bs_find deleted_page (tag_id ''section'' ''postingbody'') = None
   \<and> (\<exists>r. include_details example_env example_self listing_result deleted_page = Inr r
          \<and> r ''deleted'' = Some (FBool True)
          \<and> r ''price'' = Some (FStr ''$25'')
          \<and> r ''body'' = None \<and> r ''images'' = None \<and> r ''created'' = None)"
proof -
  have none: "bs_find deleted_page (tag_id ''section'' ''postingbody'') = None"
    by (simp add: example_defs soup_defs)
  from include_details_without_body [OF none, of example_env example_self listing_result]
  obtain r where r: "include_details example_env example_self listing_result deleted_page = Inr r"
    "r ''deleted'' = Some (FBool True)" "\<forall>k. k \<noteq> ''deleted'' \<longrightarrow> r k = listing_result k"
    by blast
  have "r ''price'' = Some (FStr ''$25'')" "r ''body'' = None" "r ''images'' = None"
    "r ''created'' = None"
    using r(3) by (simp_all add: listing_result_def)
  with none r(1,2) show ?thesis by blast
qed

section \<open>process_row on a row without the meta element\<close>

text \<open>
  C7, the price: a row without the \<open>priceinfo\<close> element still gives a record, whose
  \<open>price\<close> is \<open>None\<close>.
\<close>

lemma process_row_absent_price:
  assumes "bs_find row (tag_class ''div'' ''gallery-card spacer'') = None"
    and "map_of (tag_attrs row) ''data-pid'' = Some pid"
    and "bs_find row (tag_class ''a'' ''main'') = Some link"
    and "map_of (tag_attrs link) ''href'' = Some href"
    and "urljoin E (url self) href = Some row_url"
    and "bs_find row (tag_class ''div'' ''meta'') = Some meta"
    and "bs_find row (tag_class ''span'' ''priceinfo'') = None"
  shows "\<exists>r. process_row E self row False False = ([], Inr (Some r)) \<and> r ''price'' = Some FNone"
  using assms by (simp add: process_row_def Let_def)

lemma process_row_without_price:
  "\<exists>r. process_row example_env example_self row_without_price False False = ([], Inr (Some r))
        \<and> r ''price'' = Some FNone \<and> r ''where'' = Some (FStr ''Queens'')"
  by (simp add: process_row_def example_defs soup_defs split_last_def)

text \<open>No row without the \<open>meta\<close> element gives a record: it gives \<open>None\<close> (a spacer) or
  an exception.\<close>

lemma process_row_without_meta:
  assumes "bs_find row (tag_class ''div'' ''meta'') = None"
  shows "process_row E self row g d = ([], Inr None)
         \<or> (\<exists>e. process_row E self row g d = ([], Inl e))"
  using assms by (auto simp add: process_row_def split: option.splits)

text \<open>
  C7, the location: on a row that has its identifier, its link and its price but no
  \<open>meta\<close> element, \<open>process_row\<close> does not return a record with \<open>where\<close> unset: it raises
  UnboundLocalError, since \<open>location\<close> is read at line 232 and was never assigned.
\<close>

theorem process_row_without_meta_raises:
  "process_row example_env example_self row_without_meta False False = ([], Inl UnboundLocalError)"
  by (simp add: process_row_def example_defs soup_defs)

section \<open>The created field\<close>

text \<open>Line 340 keeps what stands before the last colon of the text.\<close>

lemma rsplit_once_first_last:
  assumes "c \<notin> set ys"
  shows "rsplit_once_first c (xs @ c # ys) = xs"
proof -
  have "dropWhile (\<lambda>x. x \<noteq> c) (rev ys @ c # rev xs)
          = dropWhile (\<lambda>x. x \<noteq> c) (c # rev xs)"
    using assms by (intro dropWhile_append2) auto
  then have "dropWhile (\<lambda>x. x \<noteq> c) (rev ys @ c # rev xs) = c # rev xs"
    by simp
  then show ?thesis by (simp add: rsplit_once_first_def)
qed

text \<open>With the offset written without a colon, as \<open>-0500\<close>, the created field is the
  date and the time to the minute.\<close>

lemma include_details_created_basic_offset:
  "\<exists>r. include_details example_env example_self listing_result
          (detail_page ''2023-01-01T10:30:00-0500'' []) = Inr r
        \<and> r ''created'' = Some (FStr ''2023-01-01 10:30'')"
  by (simp add: detail_defs example_defs soup_defs)

text \<open>
  C4. For a posted entry whose \<open>datetime\<close> is Jan 1 2023 10:30:00 with the offset written
  \<open>-05:00\<close>, \<open>include_details\<close> sets \<open>created\<close> to \<open>2023-01-01 10:30:00-05\<close>, not to
  \<open>2023-01-01 10:30\<close>: line 340 cuts the text at its last colon, which here is the colon
  inside the offset, so the seconds and the hours of the offset stay.
\<close>

theorem include_details_created_colon_offset:
  "\<exists>r. include_details example_env example_self listing_result
          (detail_page ''2023-01-01T10:30:00-05:00'' []) = Inr r
        \<and> r ''created'' = Some (FStr ''2023-01-01 10:30:00-05'')"
  by (simp add: detail_defs example_defs soup_defs)

section \<open>The images of a detail page\<close>














section \<open>geotag_result\<close>

text \<open>
  C9, as the code has it. Without a map element \<open>geotag_result\<close> returns the record as
  it is. With a map element that has both coordinate attributes, each accepted by
  \<open>float()\<close>, it sets \<open>geotag\<close> to the pair. Whenever it returns, the record is unchanged
  or has a complete pair as its \<open>geotag\<close>. With a map element that lacks
  \<open>data-latitude\<close>, or has a readable latitude and lacks \<open>data-longitude\<close>, it raises
  KeyError: partial coordinates are not treated as absent.
\<close>

theorem geotag_result_pair_or_raise:
  "(bs_find soup (tag_id ''div'' ''map'') = None \<longrightarrow> geotag_result E result soup = Inr result)
   \<and> (\<forall>m. bs_find soup (tag_id ''div'' ''map'') = Some m \<longrightarrow>
          (\<forall>lat lng. map_of (tag_attrs m) ''data-latitude'' = Some lat
                     \<and> map_of (tag_attrs m) ''data-longitude'' = Some lng
                     \<and> pyfloat E lat \<and> pyfloat E lng
                 \<longrightarrow> geotag_result E result soup = Inr (result(''geotag'' \<mapsto> FGeotag lat lng)))
          \<and> (map_of (tag_attrs m) ''data-latitude'' = None
                 \<longrightarrow> geotag_result E result soup = Inl KeyError)
          \<and> (\<forall>lat. map_of (tag_attrs m) ''data-latitude'' = Some lat \<and> pyfloat E lat
                     \<and> map_of (tag_attrs m) ''data-longitude'' = None
                 \<longrightarrow> geotag_result E result soup = Inl KeyError))
   \<and> (\<forall>r. geotag_result E result soup = Inr r \<longrightarrow>
          r = result \<or> (\<exists>lat lng. r = result(''geotag'' \<mapsto> FGeotag lat lng)))"
  by (auto simp add: geotag_result_def split: option.splits if_splits)

theorem geotag_result_pair_or_raise_witness:
  "geotag_result example_env listing_result (document []) = Inr listing_result
   \<and> geotag_result example_env listing_result
        (map_page [(''data-latitude'', ''40.7''), (''data-longitude'', ''-74.0'')])
      = Inr (listing_result(''geotag'' \<mapsto> FGeotag ''40.7'' ''-74.0''))
   \<and> geotag_result example_env listing_result (map_page [(''data-longitude'', ''-74.0'')])
      = Inl KeyError"
proof -
  let ?m2 = "Tag ''div'' None [(''id'', ''map''), (''data-latitude'', ''40.7''), (''data-longitude'', ''-74.0'')] []"
  let ?m1 = "Tag ''div'' None [(''id'', ''map''), (''data-longitude'', ''-74.0'')] []"
  have a: "bs_find (document []) (tag_id ''div'' ''map'') = None"
    by (simp add: example_defs soup_defs)
  have b: "bs_find (map_page [(''data-latitude'', ''40.7''), (''data-longitude'', ''-74.0'')])
             (tag_id ''div'' ''map'') = Some ?m2"
    by (simp add: example_defs soup_defs)
  have c: "bs_find (map_page [(''data-longitude'', ''-74.0'')]) (tag_id ''div'' ''map'') = Some ?m1"
    by (simp add: example_defs soup_defs)
  have f: "pyfloat example_env ''40.7''" "pyfloat example_env ''-74.0''"
    by (simp_all add: example_defs)
  show ?thesis
    using geotag_result_pair_or_raise [of "document []" example_env listing_result]
      geotag_result_pair_or_raise
        [of "map_page [(''data-latitude'', ''40.7''), (''data-longitude'', ''-74.0'')]"
            example_env listing_result]
      geotag_result_pair_or_raise
        [of "map_page [(''data-longitude'', ''-74.0'')]" example_env listing_result]
      a b c f
    by simp
qed

text \<open>C9 as the claim has it fails: a map element with the latitude only makes
  \<open>geotag_result\<close> raise KeyError instead of leaving the geotag unset.\<close>

theorem geotag_result_latitude_only_raises:
  "geotag_result example_env listing_result (map_page [(''data-latitude'', ''40.7'')])
     = Inl KeyError"
  by (simp add: geotag_result_def example_defs soup_defs)

end
